theory Spec2Isabelle
  imports Main "HOL-Library.Sublist"
begin

section \<open>Strings\<close>

text \<open>
  A Go string is a sequence of bytes; \<^typ>\<open>string\<close> is a list of 8-bit characters.
  The functions of package \<^verbatim>\<open>strings\<close> that the crawler calls are written with the
  argument order of the source.
\<close>

definition HasPrefix :: "string \<Rightarrow> string \<Rightarrow> bool" where
  "HasPrefix s p = prefix p s"

definition HasSuffix :: "string \<Rightarrow> string \<Rightarrow> bool" where
  "HasSuffix s p = suffix p s"

definition Contains :: "string \<Rightarrow> string \<Rightarrow> bool" where
  "Contains s sub = sublist sub s"

definition TrimSuffix :: "string \<Rightarrow> string \<Rightarrow> string" where
  "TrimSuffix s p = (if HasSuffix s p then take (length s - length p) s else s)"

text \<open>
  \<^verbatim>\<open>strings.TrimSpace\<close> removes leading and trailing white space as defined by Unicode
  (\<^verbatim>\<open>unicode.IsSpace\<close>). On UTF-8 bytes these are the encodings below: the six ASCII
  space characters, U+0085, U+00A0, U+1680, U+2000 to U+200A, U+2028, U+2029, U+202F,
  U+205F and U+3000. An invalid byte decodes to U+FFFD, which is no space, so trimming
  stops there exactly as it stops where none of the encodings matches.
\<close>

definition spaceEncodings :: "string list" where
  "spaceEncodings =
     [[CHR 0x09], [CHR 0x0A], [CHR 0x0B], [CHR 0x0C], [CHR 0x0D], [CHR 0x20],
      [CHR 0xC2, CHR 0x85], [CHR 0xC2, CHR 0xA0],
      [CHR 0xE1, CHR 0x9A, CHR 0x80],
      [CHR 0xE2, CHR 0x80, CHR 0x80], [CHR 0xE2, CHR 0x80, CHR 0x81],
      [CHR 0xE2, CHR 0x80, CHR 0x82], [CHR 0xE2, CHR 0x80, CHR 0x83],
      [CHR 0xE2, CHR 0x80, CHR 0x84], [CHR 0xE2, CHR 0x80, CHR 0x85],
      [CHR 0xE2, CHR 0x80, CHR 0x86], [CHR 0xE2, CHR 0x80, CHR 0x87],
      [CHR 0xE2, CHR 0x80, CHR 0x88], [CHR 0xE2, CHR 0x80, CHR 0x89],
      [CHR 0xE2, CHR 0x80, CHR 0x8A],
      [CHR 0xE2, CHR 0x80, CHR 0xA8], [CHR 0xE2, CHR 0x80, CHR 0xA9],
      [CHR 0xE2, CHR 0x80, CHR 0xAF],
      [CHR 0xE2, CHR 0x81, CHR 0x9F],
      [CHR 0xE3, CHR 0x80, CHR 0x80]]"

lemma spaceEncodings_nonempty: "e \<in> set spaceEncodings \<Longrightarrow> e \<noteq> []"
  by (auto simp: spaceEncodings_def)

function trimLeftSpace :: "string \<Rightarrow> string" where
  "trimLeftSpace s =
     (case find (\<lambda>e. prefix e s) spaceEncodings of
        None \<Rightarrow> s
      | Some e \<Rightarrow> trimLeftSpace (drop (length e) s))"
  by pat_completeness auto
termination
proof (relation "measure length", goal_cases)
  case 1
  show ?case by simp
next
  case (2 s e)
  then have "e \<in> set spaceEncodings" and "prefix e s"
    by (auto simp: find_Some_iff)
  then have "e \<noteq> []" and "length e \<le> length s"
    by (auto simp: spaceEncodings_nonempty prefix_length_le)
  then show ?case by (cases e; cases s) auto
qed

declare trimLeftSpace.simps [simp del]

function trimRightSpace :: "string \<Rightarrow> string" where
  "trimRightSpace s =
     (case find (\<lambda>e. suffix e s) spaceEncodings of
        None \<Rightarrow> s
      | Some e \<Rightarrow> trimRightSpace (take (length s - length e) s))"
  by pat_completeness auto
termination
proof (relation "measure length", goal_cases)
  case 1
  show ?case by simp
next
  case (2 s e)
  then have "e \<in> set spaceEncodings" and "suffix e s"
    by (auto simp: find_Some_iff)
  then have "e \<noteq> []" and "length e \<le> length s"
    by (auto simp: spaceEncodings_nonempty suffix_length_le)
  then show ?case by (cases e; cases s) auto
qed

declare trimRightSpace.simps [simp del]

definition TrimSpace :: "string \<Rightarrow> string" where
  "TrimSpace s = trimRightSpace (trimLeftSpace s)"

text \<open>
  \<^verbatim>\<open>strings.ToLower\<close>, as far as a search for an ASCII word in its result can tell:
  an ASCII capital becomes its small letter, and the only two runes outside ASCII whose
  lower case is an ASCII letter, U+212A (Kelvin sign, bytes E2 84 AA) and U+0130 (bytes
  C4 B0), become \<open>k\<close> and \<open>i\<close>. Go re-encodes every other rune outside ASCII to bytes
  outside ASCII again; the model leaves those bytes in place.
\<close>

definition lowerByte :: "char \<Rightarrow> char" where
  "lowerByte c =
     (if of_char (CHR ''A'') \<le> (of_char c :: nat) \<and> (of_char c :: nat) \<le> of_char (CHR ''Z'')
      then char_of (of_char c + (32 :: nat)) else c)"

fun ToLower :: "string \<Rightarrow> string" where
  "ToLower (a # b # c # cs) =
     (if a = CHR 0xE2 \<and> b = CHR 0x84 \<and> c = CHR 0xAA then CHR ''k'' # ToLower cs
      else if a = CHR 0xC4 \<and> b = CHR 0xB0 then CHR ''i'' # ToLower (c # cs)
      else lowerByte a # ToLower (b # c # cs))"
| "ToLower [a, b] =
     (if a = CHR 0xC4 \<and> b = CHR 0xB0 then [CHR ''i''] else [lowerByte a, lowerByte b])"
| "ToLower [a] = [lowerByte a]"
| "ToLower [] = []"

section \<open>Package path/filepath (Unix)\<close>

text \<open>\<^verbatim>\<open>strings.Split(s, "/")\<close>: the fields between the slashes, never an empty list.\<close>

fun splitSlash :: "string \<Rightarrow> string list" where
  "splitSlash [] = [[]]"
| "splitSlash (c # cs) =
     (if c = CHR ''/'' then [] # splitSlash cs
      else (case splitSlash cs of [] \<Rightarrow> [[c]] | x # xs \<Rightarrow> (c # x) # xs))"

fun joinSlash :: "string list \<Rightarrow> string" where
  "joinSlash [] = []"
| "joinSlash [x] = x"
| "joinSlash (x # y # ys) = x @ CHR ''/'' # joinSlash (y # ys)"

text \<open>
  \<^verbatim>\<open>filepath.Clean\<close> reads the path element by element and keeps the elements written
  so far; here they are a stack, last element first. An empty element and \<open>.\<close> are
  dropped; \<open>..\<close> removes the last real element, is dropped at the root of a rooted path,
  and is kept at the front of a relative one.
\<close>

definition cleanStep :: "bool \<Rightarrow> string list \<Rightarrow> string \<Rightarrow> string list" where
  "cleanStep rooted st el =
     (if el = [] \<or> el = ''.'' then st
      else if el = ''..'' then
        (if st \<noteq> [] \<and> hd st \<noteq> ''..'' then tl st
         else if \<not> rooted then ''..'' # st
         else st)
      else el # st)"

definition Clean :: "string \<Rightarrow> string" where
  "Clean path =
     (if path = [] then ''.''
      else
        let rooted = (hd path = CHR ''/'');
            st = foldl (cleanStep rooted) [] (splitSlash path);
            out = (if rooted then ''/'' else []) @ joinSlash (rev st)
        in if out = [] then ''.'' else out)"

text \<open>\<^verbatim>\<open>filepath.Join\<close> of two elements, the only form the crawler uses.\<close>

definition Join :: "string \<Rightarrow> string \<Rightarrow> string" where
  "Join a b =
     (if a \<noteq> [] then Clean (a @ CHR ''/'' # b)
      else if b \<noteq> [] then Clean b
      else [])"

definition stripTrailingSlashes :: "string \<Rightarrow> string" where
  "stripTrailingSlashes path = rev (dropWhile (\<lambda>c. c = CHR ''/'') (rev path))"

definition lastElement :: "string \<Rightarrow> string" where
  "lastElement path = rev (takeWhile (\<lambda>c. c \<noteq> CHR ''/'') (rev path))"

definition Base :: "string \<Rightarrow> string" where
  "Base path =
     (if path = [] then ''.''
      else
        let p = lastElement (stripTrailingSlashes path)
        in if p = [] then ''/'' else p)"

definition Dir :: "string \<Rightarrow> string" where
  "Dir path = Clean (rev (dropWhile (\<lambda>c. c \<noteq> CHR ''/'') (rev path)))"

section \<open>Name validation and link extraction\<close>

text \<open>\<^verbatim>\<open>isValidFilename\<close>: the name gate applied before any filesystem operation.\<close>

definition isValidFilename :: "string \<Rightarrow> bool" where
  "isValidFilename filename =
     (if filename = [] \<or> TrimSpace filename = [] then False
      else if Contains filename ''..'' \<or> Contains filename ''/'' \<or> Contains filename [CHR 0x5C]
      then False
      else True)"


text \<open>
  The pattern \<^verbatim>\<open>href=["']([^"']+)["']\<close> of \<^verbatim>\<open>parseDirectoryListing\<close>. A match at the
  head of the text is \<^verbatim>\<open>href=\<close>, a quote, the longest run of characters that are no
  quotes, which must not be empty, and a quote. The result is the captured group and the
  text after the match.
\<close>

definition isQuote :: "char \<Rightarrow> bool" where
  "isQuote c = (c = CHR 0x22 \<or> c = CHR 0x27)"

definition matchHref :: "string \<Rightarrow> (string \<times> string) option" where
  "matchHref s =
     (if prefix ''href='' s then
        (case drop 5 s of
           [] \<Rightarrow> None
         | q # r \<Rightarrow>
             if isQuote q then
               (let link = takeWhile (\<lambda>c. \<not> isQuote c) r;
                    after = dropWhile (\<lambda>c. \<not> isQuote c) r
                in if link \<noteq> [] \<and> after \<noteq> [] then Some (link, tl after) else None)
             else None)
      else None)"

lemma matchHref_shorter: "matchHref s = Some (link, rest) \<Longrightarrow> length rest < length s"
proof -
  assume a: "matchHref s = Some (link, rest)"
  then have p: "prefix ''href='' s"
    by (simp add: matchHref_def split: if_splits)
  then obtain q r where d: "drop 5 s = q # r"
    using a by (cases "drop 5 s") (auto simp: matchHref_def)
  with a p have "rest = tl (dropWhile (\<lambda>c. \<not> isQuote c) r)"
    by (auto simp: matchHref_def Let_def split: if_splits)
  moreover have "length (tl (dropWhile (\<lambda>c. \<not> isQuote c) r)) \<le> length (dropWhile (\<lambda>c. \<not> isQuote c) r)"
    by simp
  moreover have "length (dropWhile (\<lambda>c. \<not> isQuote c) r) \<le> length r"
    by (rule length_dropWhile_le)
  ultimately have "length rest \<le> length r"
    by simp
  moreover have "length r < length s"
  proof -
    from d have "length (drop 5 s) = Suc (length r)" by simp
    then show ?thesis by simp
  qed
  ultimately show ?thesis by simp
qed

text \<open>
  \<^verbatim>\<open>FindAllStringSubmatch(content, -1)\<close>, reduced to the captured group of each match:
  the leftmost match, then the search goes on behind it.
\<close>

function FindAllStringSubmatch :: "string \<Rightarrow> string list" where
  "FindAllStringSubmatch [] = []"
| "FindAllStringSubmatch (c # cs) =
     (case matchHref (c # cs) of
        None \<Rightarrow> FindAllStringSubmatch cs
      | Some (link, rest) \<Rightarrow> link # FindAllStringSubmatch rest)"
  by pat_completeness auto
termination
proof (relation "measure length", goal_cases)
  case 1
  show ?case by simp
next
  case (2 c cs)
  show ?case by simp
next
  case (3 c cs x link rest)
  then have "matchHref (c # cs) = Some (link, rest)" by simp
  then have "length rest < length (c # cs)" by (rule matchHref_shorter)
  then show ?case by simp
qed

text \<open>
  The four tests of the loop of \<^verbatim>\<open>parseDirectoryListing\<close>, each the condition of one
  \<^verbatim>\<open>if ... { continue }\<close> of the source, in its order.
\<close>

definition skipScheme :: "string \<Rightarrow> bool" where
  "skipScheme link =
     (HasPrefix link ''http://'' \<or> HasPrefix link ''https://'' \<or>
      HasPrefix link ''mailto:'' \<or> HasPrefix link ''ftp://'' \<or>
      HasPrefix link ''javascript:'' \<or> HasPrefix link ''data:'' \<or>
      HasPrefix link ''vbscript:'' \<or>
      HasPrefix link ''#'' \<or> link = ''/'' \<or> link = ''./'')"

definition skipTraversal :: "string \<Rightarrow> bool" where
  "skipTraversal link =
     (Contains link ''..'' \<or>
      HasPrefix link ''../'' \<or>
      Contains link ''/..'' \<or>
      HasSuffix link ''/..'' \<or>
      link = ''..'')"

definition skipNonContent :: "string \<Rightarrow> bool" where
  "skipNonContent link =
     (Contains (ToLower link) ''parent'' \<or>
      Contains (ToLower link) ''back'' \<or>
      Contains link ''?'' \<or> Contains link ''&'')"

definition skipEmpty :: "string \<Rightarrow> bool" where
  "skipEmpty link = (link = [] \<or> TrimSpace link = [])"

text \<open>
  The loop over the matches; \<open>links\<close> is the slice the source appends to, every
  \<^verbatim>\<open>continue\<close> goes on with the next match.
\<close>

fun scanMatches :: "string list \<Rightarrow> string list \<Rightarrow> string list" where
  "scanMatches links [] = links"
| "scanMatches links (link # matches) =
     (if skipScheme link then scanMatches links matches
      else if skipTraversal link then scanMatches links matches
      else if skipNonContent link then scanMatches links matches
      else if skipEmpty link then scanMatches links matches
      else scanMatches (links @ [link]) matches)"

section \<open>Errors, configuration and statistics\<close>

datatype errno = ENOENT | ENOTDIR | EISDIR | EEXIST | EACCES

text \<open>
  Go errors as values: the two errors of a done context, a failed system call, an error
  made on the spot, and \<^verbatim>\<open>fmt.Errorf("...: %w", err)\<close>.
\<close>

datatype error =
    Canceled
  | DeadlineExceeded
  | PathError errno
  | Failure string
  | Wrapped string error

text \<open>
  \<^verbatim>\<open>config.Target\<close> and \<^verbatim>\<open>config.Defaults\<close>. Go's \<^verbatim>\<open>int\<close> has 64 bits; the crawler only
  compares these numbers and adds one to the depth per level of recursion, so they are
  integers here.
\<close>

record Target =
  Name :: string
  URL :: string
  UserAgent :: string
  RateLimit :: string
  Retries :: int
  MaxDepth :: int
  Timeout :: int
  WaitBetweenRequests :: int
  Timestamping :: bool
  NoClobber :: bool
  ContinueDownload :: bool
  CheckChanges :: bool

record Defaults =
  defUserAgent :: string
  defRateLimit :: string
  defRetries :: int
  defMaxDepth :: int
  defTimeout :: int
  defWaitBetweenRequests :: int
  defTimestamping :: bool
  defNoClobber :: bool
  defContinueDownload :: bool
  defCheckChanges :: bool

definition GetDefaults :: Defaults where
  "GetDefaults =
     \<lparr> defUserAgent = ''Mozilla/5.0 (compatible; HttpMirror/1.0; +https://github.com/jhofer-cloud/http-mirror) Friendly Educational Mirror'',
       defRateLimit = ''500k'',
       defRetries = 3,
       defMaxDepth = 5,
       defTimeout = 30,
       defWaitBetweenRequests = 1,
       defTimestamping = True,
       defNoClobber = True,
       defContinueDownload = True,
       defCheckChanges = True \<rparr>"

definition applyDefaults :: "Target \<Rightarrow> Defaults \<Rightarrow> Target" where
  "applyDefaults target defaults =
     (let t1 = (if UserAgent target = [] then target\<lparr>UserAgent := defUserAgent defaults\<rparr> else target);
          t2 = (if RateLimit t1 = [] then t1\<lparr>RateLimit := defRateLimit defaults\<rparr> else t1);
          t3 = (if Retries t2 = 0 then t2\<lparr>Retries := defRetries defaults\<rparr> else t2);
          t4 = (if MaxDepth t3 = 0 then t3\<lparr>MaxDepth := defMaxDepth defaults\<rparr> else t3);
          t5 = (if Timeout t4 = 0 then t4\<lparr>Timeout := defTimeout defaults\<rparr> else t4);
          t6 = (if WaitBetweenRequests t5 = 0
                then t5\<lparr>WaitBetweenRequests := defWaitBetweenRequests defaults\<rparr> else t5);
          t7 = (if \<not> Timestamping t6 then t6\<lparr>Timestamping := defTimestamping defaults\<rparr> else t6);
          t8 = (if \<not> NoClobber t7 then t7\<lparr>NoClobber := defNoClobber defaults\<rparr> else t7);
          t9 = (if \<not> ContinueDownload t8
                then t8\<lparr>ContinueDownload := defContinueDownload defaults\<rparr> else t8)
      in if \<not> CheckChanges t9 then t9\<lparr>CheckChanges := defCheckChanges defaults\<rparr> else t9)"

text \<open>\<^verbatim>\<open>GetWaitDuration\<close>, in seconds, the unit of the clock below.\<close>

definition GetWaitDuration :: "Target \<Rightarrow> int" where
  "GetWaitDuration t = WaitBetweenRequests t"

record MirrorStats =
  StartTime :: nat
  EndTime :: nat
  Duration :: int
  StatsTarget :: string
  FilesDownloaded :: int
  FilesSkipped :: int
  BytesDownloaded :: int
  Errors :: int

section \<open>Clock, context, files and network\<close>

text \<open>
  The crawler runs in one thread, so its effects are a state passed along: a clock, the
  local files, the statistics of the run and a trace of what the crawler asked for. The
  clock counts seconds from Go's zero time, so that \<^verbatim>\<open>Time.IsZero\<close> is equality with 0; a
  request takes one second, \<^verbatim>\<open>time.Sleep\<close> takes its argument. A context is done from
  the second \<open>cancelAt\<close> on, and then reports \<^verbatim>\<open>context.DeadlineExceeded\<close> or
  \<^verbatim>\<open>context.Canceled\<close>.
\<close>

record Context =
  cancelAt :: "nat option"
  byDeadline :: bool

definition ctxDone :: "Context \<Rightarrow> nat \<Rightarrow> bool" where
  "ctxDone ctx t = (case cancelAt ctx of None \<Rightarrow> False | Some d \<Rightarrow> d \<le> t)"

definition ctxErr :: "Context \<Rightarrow> error" where
  "ctxErr ctx = (if byDeadline ctx then DeadlineExceeded else Canceled)"

text \<open>
  Local files: a map from a path, as the crawler writes it, to a file with its content
  and modification time, a directory with the size and modification time that
  \<^verbatim>\<open>os.Stat\<close> reports for it, or an entry that cannot be read. The crawler builds every
  path with \<^verbatim>\<open>filepath.Join\<close> and \<^verbatim>\<open>filepath.Dir\<close>, which clean it, so a path is looked up
  as it is written.
\<close>

datatype node = File string int | Directory int int | NoAccess

type_synonym filesystem = "string \<Rightarrow> node option"

record FileStat =
  statSize :: int
  statModTime :: int
  statIsDir :: bool

definition osStat :: "filesystem \<Rightarrow> string \<Rightarrow> errno + FileStat" where
  "osStat fs path =
     (case fs path of
        None \<Rightarrow> Inl ENOENT
      | Some NoAccess \<Rightarrow> Inl EACCES
      | Some (File content mtime) \<Rightarrow>
          Inr \<lparr>statSize = int (length content), statModTime = mtime, statIsDir = False\<rparr>
      | Some (Directory sz mtime) \<Rightarrow>
          Inr \<lparr>statSize = sz, statModTime = mtime, statIsDir = True\<rparr>)"

definition IsNotExist :: "errno \<Rightarrow> bool" where
  "IsNotExist e = (e = ENOENT)"

text \<open>
  The parent that \<^verbatim>\<open>os.MkdirAll\<close> recurses on: the path up to the last separator before
  the last element, named without its trailing separators; empty when there is none.
\<close>

definition parentDir :: "string \<Rightarrow> string" where
  "parentDir path =
     (let pre = rev (dropWhile (\<lambda>c. c \<noteq> CHR ''/'') (rev (stripTrailingSlashes path)))
      in if pre = [] then []
         else if stripTrailingSlashes pre = [] then ''/''
         else stripTrailingSlashes pre)"

definition isDirectory :: "filesystem \<Rightarrow> string \<Rightarrow> bool" where
  "isDirectory fs path = (case fs path of Some (Directory sz mtime) \<Rightarrow> True | _ \<Rightarrow> False)"

definition osMkdir :: "filesystem \<Rightarrow> int \<Rightarrow> string \<Rightarrow> errno option \<times> filesystem" where
  "osMkdir fs tm path =
     (if path = [] then (Some ENOENT, fs)
      else
        (case fs path of
           Some NoAccess \<Rightarrow> (Some EACCES, fs)
         | Some _ \<Rightarrow> (Some EEXIST, fs)
         | None \<Rightarrow>
             if parentDir path = [] \<or> isDirectory fs (parentDir path)
             then (None, fs(path \<mapsto> Directory 4096 tm))
             else if fs (parentDir path) = None then (Some ENOENT, fs)
             else (Some ENOTDIR, fs)))"

lemma stripTrailingSlashes_length: "length (stripTrailingSlashes p) \<le> length p"
proof -
  have "length (dropWhile (\<lambda>c. c = CHR ''/'') (rev p)) \<le> length (rev p)"
    by (rule length_dropWhile_le)
  then show ?thesis by (simp add: stripTrailingSlashes_def)
qed

lemma stripTrailingSlashes_last:
  "stripTrailingSlashes p \<noteq> [] \<Longrightarrow> last (stripTrailingSlashes p) \<noteq> CHR ''/''"
proof -
  assume a: "stripTrailingSlashes p \<noteq> []"
  then have ne: "dropWhile (\<lambda>c. c = CHR ''/'') (rev p) \<noteq> []"
    by (simp add: stripTrailingSlashes_def)
  then have "\<not> (hd (dropWhile (\<lambda>c. c = CHR ''/'') (rev p)) = CHR ''/'')"
    by (rule hd_dropWhile)
  with ne show ?thesis by (simp add: stripTrailingSlashes_def last_rev)
qed

lemma parentDir_shorter:
  assumes "parentDir path \<noteq> []"
  shows "length (parentDir path) < length path"
proof -
  define q where "q = stripTrailingSlashes path"
  define pre where "pre = rev (dropWhile (\<lambda>c. c \<noteq> CHR ''/'') (rev q))"
  from assms have pre_ne: "pre \<noteq> []"
    by (auto simp: parentDir_def Let_def pre_def q_def split: if_splits)
  then have q_ne: "q \<noteq> []" by (auto simp: pre_def)
  then have lastq: "last q \<noteq> CHR ''/''"
    unfolding q_def by (rule stripTrailingSlashes_last)
  with q_ne have "hd (rev q) \<noteq> CHR ''/''" by (simp add: hd_rev)
  with q_ne have "dropWhile (\<lambda>c. c \<noteq> CHR ''/'') (rev q) =
      dropWhile (\<lambda>c. c \<noteq> CHR ''/'') (tl (rev q))"
    by (cases "rev q") auto
  moreover have "length (dropWhile (\<lambda>c. c \<noteq> CHR ''/'') (tl (rev q))) \<le> length (tl (rev q))"
    by (rule length_dropWhile_le)
  ultimately have "length pre \<le> length (tl (rev q))"
    by (simp add: pre_def)
  with q_ne have pl: "length pre < length q" by (cases "rev q") auto
  have ql: "length q \<le> length path"
    unfolding q_def by (rule stripTrailingSlashes_length)
  have "length (parentDir path) \<le> length pre"
  proof (cases "stripTrailingSlashes pre = []")
    case True
    with pre_ne have "parentDir path = ''/''"
      by (simp add: parentDir_def Let_def pre_def q_def)
    with pre_ne show ?thesis by (cases pre) auto
  next
    case False
    with pre_ne have "parentDir path = stripTrailingSlashes pre"
      by (simp add: parentDir_def Let_def pre_def q_def)
    then show ?thesis by (simp add: stripTrailingSlashes_length)
  qed
  with pl ql show ?thesis by simp
qed

text \<open>
  \<^verbatim>\<open>os.MkdirAll\<close>: nothing to do for a directory, an error for another kind of entry;
  otherwise the parent first, then \<^verbatim>\<open>Mkdir\<close>, whose error is dropped when the directory
  is there after all.
\<close>

function osMkdirAll :: "filesystem \<Rightarrow> int \<Rightarrow> string \<Rightarrow> errno option \<times> filesystem" where
  "osMkdirAll fs tm path =
     (case osStat fs path of
        Inr st \<Rightarrow> if statIsDir st then (None, fs) else (Some ENOTDIR, fs)
      | Inl e0 \<Rightarrow>
          (case (if parentDir path \<noteq> [] then osMkdirAll fs tm (parentDir path) else (None, fs)) of
             (Some e, fs1) \<Rightarrow> (Some e, fs1)
           | (None, fs1) \<Rightarrow>
               (case osMkdir fs1 tm path of
                  (None, fs2) \<Rightarrow> (None, fs2)
                | (Some e, fs2) \<Rightarrow>
                    (case osStat fs2 path of
                       Inr st \<Rightarrow> if statIsDir st then (None, fs2) else (Some e, fs2)
                     | Inl e1 \<Rightarrow> (Some e, fs2)))))"
  by pat_completeness auto
termination
  by (relation "measure (\<lambda>(fs, tm, path). length path)") (simp_all add: parentDir_shorter)

declare osMkdirAll.simps [simp del]

text \<open>\<^verbatim>\<open>os.Create\<close>: the file is made or cut to length zero.\<close>

definition osCreate :: "filesystem \<Rightarrow> int \<Rightarrow> string \<Rightarrow> errno option \<times> filesystem" where
  "osCreate fs tm path =
     (if path = [] then (Some ENOENT, fs)
      else
        (case fs path of
           Some NoAccess \<Rightarrow> (Some EACCES, fs)
         | Some (Directory sz mtime) \<Rightarrow> (Some EISDIR, fs)
         | Some (File content mtime) \<Rightarrow> (None, fs(path \<mapsto> File [] tm))
         | None \<Rightarrow>
             if parentDir path = [] \<or> isDirectory fs (parentDir path)
             then (None, fs(path \<mapsto> File [] tm))
             else if fs (parentDir path) = None then (Some ENOENT, fs)
             else (Some ENOTDIR, fs)))"

definition writeFile :: "filesystem \<Rightarrow> int \<Rightarrow> string \<Rightarrow> string \<Rightarrow> filesystem" where
  "writeFile fs tm path content = fs(path \<mapsto> File content tm)"

definition osChtimes :: "filesystem \<Rightarrow> string \<Rightarrow> int \<Rightarrow> filesystem" where
  "osChtimes fs path tm =
     (case fs path of
        Some (File content mtime) \<Rightarrow> fs(path \<mapsto> File content tm)
      | Some (Directory sz mtime) \<Rightarrow> fs(path \<mapsto> Directory sz tm)
      | _ \<Rightarrow> fs)"

text \<open>
  The network. A response carries what the crawler reads of it: the status, three
  headers as text, \<^verbatim>\<open>Content-Length\<close> and \<^verbatim>\<open>Last-Modified\<close> as \<^verbatim>\<open>strconv.ParseInt\<close> and
  \<^verbatim>\<open>time.Parse(time.RFC1123, ...)\<close> read them (\<open>None\<close> for a header that is missing or
  does not parse), and the body, whose reading may end in an error after the bytes
  given (a broken connection, or the rate limiter refusing). The server answers a verb
  and a URL at a time, or not at all (\<open>None\<close>: the transport fails). \<open>parseURL\<close> is
  \<^verbatim>\<open>url.Parse\<close> followed by \<^verbatim>\<open>.Path\<close>, \<open>None\<close> when the URL does not parse; \<open>resolve\<close> is
  \<^verbatim>\<open>ResolveReference(...).String()\<close> of the parsed base and link.
\<close>

datatype httpMethod = GET | HEAD

record Response =
  respStatus :: int
  respContentType :: string
  respETag :: string
  respContentLength :: "int option"
  respLastModified :: "int option"
  respBody :: string
  respBodyFails :: bool

record env =
  parseURL :: "string \<Rightarrow> string option"
  resolve :: "string \<Rightarrow> string \<Rightarrow> string"
  server :: "httpMethod \<Rightarrow> string \<Rightarrow> nat \<Rightarrow> Response option"

text \<open>
  The trace: a request sent, \<^verbatim>\<open>os.MkdirAll\<close> for the directory of a subdirectory link,
  and the download asked for a file link or for the page itself (a direct file), each
  with the URL and the local path.
\<close>

datatype event =
    EvRequest httpMethod string
  | EvMkdirSub string
  | EvFileLink string string
  | EvDirectFile string string

record state =
  now :: nat
  files :: filesystem
  stats :: MirrorStats
  trace :: "event list"

definition emit :: "event \<Rightarrow> state \<Rightarrow> state" where
  "emit ev s = s\<lparr>trace := trace s @ [ev]\<rparr>"

definition addError :: "state \<Rightarrow> state" where
  "addError s = s\<lparr>stats := (stats s)\<lparr>Errors := Errors (stats s) + 1\<rparr>\<rparr>"

definition sleep :: "int \<Rightarrow> state \<Rightarrow> state" where
  "sleep d s = s\<lparr>now := now s + nat d\<rparr>"

section \<open>The fetch client\<close>

text \<open>
  \<^verbatim>\<open>client.Do\<close> with the context of the request: nothing is sent for a context that is
  done, and the error wraps the context's.
\<close>

definition DoRequest ::
  "env \<Rightarrow> Context \<Rightarrow> httpMethod \<Rightarrow> string \<Rightarrow> state \<Rightarrow> (error + Response) \<times> state" where
  "DoRequest E ctx m url s =
     (if ctxDone ctx (now s) then (Inl (Wrapped ''request'' (ctxErr ctx)), s)
      else
        let s1 = (emit (EvRequest m url) s)\<lparr>now := now s + 1\<rparr>
        in (case server E m url (now s) of
              None \<Rightarrow> (Inl (Failure ''transport''), s1)
            | Some resp \<Rightarrow> (Inr resp, s1)))"

record FileInfo =
  InfoURL :: string
  LastModified :: int
  Size :: int
  ETag :: string
  ContentType :: string

text \<open>The \<^verbatim>\<open>FileInfo\<close> that \<^verbatim>\<open>CheckFileInfo\<close> fills from the headers of a response.\<close>

definition fileInfoOf :: "string \<Rightarrow> Response \<Rightarrow> FileInfo" where
  "fileInfoOf url resp =
     \<lparr>InfoURL = url,
      LastModified = (case respLastModified resp of None \<Rightarrow> 0 | Some t \<Rightarrow> t),
      Size = (case respContentLength resp of None \<Rightarrow> 0 | Some n \<Rightarrow> n),
      ETag = respETag resp,
      ContentType = respContentType resp\<rparr>"

definition CheckFileInfo ::
  "env \<Rightarrow> Context \<Rightarrow> string \<Rightarrow> state \<Rightarrow> (error + FileInfo) \<times> state" where
  "CheckFileInfo E ctx url s =
     (case parseURL E url of
        None \<Rightarrow> (Inl (Wrapped ''failed to create HEAD request'' (Failure ''parse'')), s)
      | Some path \<Rightarrow>
          (case DoRequest E ctx HEAD url s of
             (Inl err, s1) \<Rightarrow> (Inl (Wrapped ''HEAD request failed'' err), s1)
           | (Inr resp, s1) \<Rightarrow>
               if respStatus resp \<noteq> 200 then (Inl (Failure ''HEAD request returned status''), s1)
               else (Inr (fileInfoOf url resp), s1)))"

definition NeedsUpdate :: "filesystem \<Rightarrow> string \<Rightarrow> FileInfo \<Rightarrow> error + bool" where
  "NeedsUpdate fs localPath remoteInfo =
     (case osStat fs localPath of
        Inl e \<Rightarrow>
          if IsNotExist e then Inr True
          else Inl (Wrapped ''failed to stat local file'' (PathError e))
      | Inr st \<Rightarrow>
          if LastModified remoteInfo \<noteq> 0 \<and> statModTime st < LastModified remoteInfo then Inr True
          else if Size remoteInfo > 0 \<and> statSize st \<noteq> Size remoteInfo then Inr True
          else Inr False)"

text \<open>
  \<^verbatim>\<open>Client.DownloadFile\<close>. The limiter only slows the copy down or makes it fail, which
  is the response's \<open>respBodyFails\<close>.
\<close>

definition DownloadFile ::
  "env \<Rightarrow> Context \<Rightarrow> Target \<Rightarrow> string \<Rightarrow> string \<Rightarrow> state \<Rightarrow> error option \<times> state" where
  "DownloadFile E ctx config url localPath s =
     (case (if CheckChanges config then
              (case CheckFileInfo E ctx url s of
                 (Inl err, s1) \<Rightarrow> (Inl (Wrapped ''failed to check remote file info'' err), s1)
               | (Inr remoteInfo, s1) \<Rightarrow>
                   (case NeedsUpdate (files s1) localPath remoteInfo of
                      Inl err \<Rightarrow> (Inl (Wrapped ''failed to check if file needs update'' err), s1)
                    | Inr needsUpdate \<Rightarrow> (Inr needsUpdate, s1)))
            else (Inr True, s)) of
        (Inl err, s1) \<Rightarrow> (Some err, s1)
      | (Inr False, s1) \<Rightarrow> (None, s1)
      | (Inr True, s1) \<Rightarrow>
          (case osMkdirAll (files s1) (int (now s1)) (Dir localPath) of
             (Some e, fs1) \<Rightarrow>
               (Some (Wrapped ''failed to create directory'' (PathError e)), s1\<lparr>files := fs1\<rparr>)
           | (None, fs1) \<Rightarrow>
               (case osCreate fs1 (int (now s1)) localPath of
                  (Some e, fs2) \<Rightarrow>
                    (Some (Wrapped ''failed to create local file'' (PathError e)), s1\<lparr>files := fs2\<rparr>)
                | (None, fs2) \<Rightarrow>
                    (case parseURL E url of
                       None \<Rightarrow>
                         (Some (Wrapped ''failed to create GET request'' (Failure ''parse'')),
                          s1\<lparr>files := fs2\<rparr>)
                     | Some path \<Rightarrow>
                         (case DoRequest E ctx GET url (s1\<lparr>files := fs2\<rparr>) of
                            (Inl err, s2) \<Rightarrow> (Some (Wrapped ''GET request failed'' err), s2)
                          | (Inr resp, s2) \<Rightarrow>
                              if respStatus resp \<noteq> 200
                              then (Some (Failure ''GET request returned status''), s2)
                              else
                                let s3 = s2\<lparr>files :=
                                           writeFile (files s2) (int (now s2)) localPath (respBody resp)\<rparr>
                                in if respBodyFails resp
                                   then (Some (Wrapped ''failed to copy file'' (Failure ''read'')), s3)
                                   else
                                     (case respLastModified resp of
                                        None \<Rightarrow> (None, s3)
                                      | Some t \<Rightarrow>
                                          (None, s3\<lparr>files := osChtimes (files s3) localPath t\<rparr>)))))))"

section \<open>The mirror manager\<close>

text \<open>Calls of the logger change nothing that the crawler or its caller reads; they are left out.\<close>

definition fetchDirectoryListing ::
  "env \<Rightarrow> Context \<Rightarrow> string \<Rightarrow> state \<Rightarrow> (error + Response) \<times> state" where
  "fetchDirectoryListing E ctx url s =
     (case parseURL E url of
        None \<Rightarrow> (Inl (Failure ''parse''), s)
      | Some path \<Rightarrow> DoRequest E ctx GET url s)"

definition parseDirectoryListing :: "Response \<Rightarrow> error + string list" where
  "parseDirectoryListing resp =
     (if respBodyFails resp then Inl (Failure ''read'')
      else Inr (scanMatches [] (FindAllStringSubmatch (respBody resp))))"

definition addSkipped :: "state \<Rightarrow> state" where
  "addSkipped s = s\<lparr>stats := (stats s)\<lparr>FilesSkipped := FilesSkipped (stats s) + 1\<rparr>\<rparr>"

definition addDownloaded :: "state \<Rightarrow> state" where
  "addDownloaded s = s\<lparr>stats := (stats s)\<lparr>FilesDownloaded := FilesDownloaded (stats s) + 1\<rparr>\<rparr>"

definition addBytes :: "int \<Rightarrow> state \<Rightarrow> state" where
  "addBytes n s = s\<lparr>stats := (stats s)\<lparr>BytesDownloaded := BytesDownloaded (stats s) + n\<rparr>\<rparr>"

text \<open>
  \<^verbatim>\<open>Manager.downloadFile\<close>. The first component of the pair computed first is whether the
  download goes ahead: always without change detection, and with it unless the probe and
  \<^verbatim>\<open>NeedsUpdate\<close> both succeed and find the file up to date.
\<close>

definition downloadFile ::
  "env \<Rightarrow> Context \<Rightarrow> Target \<Rightarrow> string \<Rightarrow> string \<Rightarrow> state \<Rightarrow> error option \<times> state" where
  "downloadFile E ctx target url localPath s =
     (case (if CheckChanges target then
              (case CheckFileInfo E ctx url s of
                 (Inl err, s1) \<Rightarrow> (True, s1)
               | (Inr remoteInfo, s1) \<Rightarrow>
                   (case NeedsUpdate (files s1) localPath remoteInfo of
                      Inl err \<Rightarrow> (True, s1)
                    | Inr needsUpdate \<Rightarrow> (needsUpdate, s1)))
            else (True, s)) of
        (False, s1) \<Rightarrow> (None, addSkipped s1)
      | (True, s1) \<Rightarrow>
          (case DownloadFile E ctx target url localPath s1 of
             (Some err, s2) \<Rightarrow> (Some err, addError s2)
           | (None, s2) \<Rightarrow>
               (None,
                addDownloaded
                  (case osStat (files s2) localPath of
                     Inr st \<Rightarrow> addBytes (statSize st) s2
                   | Inl e \<Rightarrow> s2))))"

text \<open>
  \<^verbatim>\<open>mirrorURL\<close> is split in three. \<open>visitURL\<close> is the function without its loop: the
  depth limit, the context, the wait, the fetch, and the download of a page that is no
  listing; for a listing it hands the links over. \<open>linkStep\<close> is the body of the loop
  for one link, up to the recursive call, which it hands over with its URL and directory.
  \<open>mirrorURL\<close> and \<open>processLinks\<close> below put the two together.
\<close>

datatype visit = Finished "error option" state | Listing "string list" state

text \<open>The depth check at the head of \<^verbatim>\<open>mirrorURL\<close> (\<^verbatim>\<open>-1\<close> means unlimited).\<close>

definition depthLimitReached :: "Target \<Rightarrow> int \<Rightarrow> bool" where
  "depthLimitReached target depth = (MaxDepth target \<ge> 0 \<and> depth \<ge> MaxDepth target)"

definition visitURL ::
  "env \<Rightarrow> Context \<Rightarrow> Target \<Rightarrow> string \<Rightarrow> string \<Rightarrow> int \<Rightarrow> state \<Rightarrow> visit" where
  "visitURL E ctx target currentURL localDir depth s =
     (if depthLimitReached target depth then Finished None s
      else if ctxDone ctx (now s) then Finished (Some (ctxErr ctx)) s
      else
        let s1 = (if depth > 0 \<and> WaitBetweenRequests target > 0
                  then sleep (GetWaitDuration target) s else s)
        in (case parseURL E currentURL of
              None \<Rightarrow>
                Finished (Some (Wrapped ''failed to parse URL'' (Failure ''parse''))) (addError s1)
            | Some path \<Rightarrow>
                (case fetchDirectoryListing E ctx currentURL s1 of
                   (Inl err, s2) \<Rightarrow>
                     Finished (Some (Wrapped ''failed to fetch directory listing'' err)) (addError s2)
                 | (Inr resp, s2) \<Rightarrow>
                     if Contains (respContentType resp) ''text/html'' then
                       (case parseDirectoryListing resp of
                          Inl err \<Rightarrow> Finished None (addError s2)
                        | Inr links \<Rightarrow>
                            if links = [] then
                              let filename = Base path;
                                  filename1 = (if filename = [] \<or> filename = ''.''
                                               then ''index.html'' else filename);
                                  localPath = Join localDir filename1
                              in Finished None
                                   (snd (downloadFile E ctx target currentURL localPath
                                           (emit (EvDirectFile currentURL localPath) s2)))
                            else Listing links s2)
                     else
                       let filename = Base path;
                           filename1 = (if filename = [] \<or> filename = ''.'' \<or> filename = ''/''
                                        then ''index.html'' else filename);
                           localPath = Join localDir filename1
                       in Finished None
                            (snd (downloadFile E ctx target currentURL localPath
                                    (emit (EvDirectFile currentURL localPath) s2))))))"

datatype step = Continue state | Recurse string string state

definition linkStep ::
  "env \<Rightarrow> Context \<Rightarrow> Target \<Rightarrow> string \<Rightarrow> string \<Rightarrow> string \<Rightarrow> state \<Rightarrow> step" where
  "linkStep E ctx target currentURL localDir link s =
     (case parseURL E link of
        None \<Rightarrow> Continue s
      | Some linkPath \<Rightarrow>
          let absoluteURL = resolve E currentURL link in
          if Contains link ''..'' \<or> Contains link ''Parent Directory'' then Continue s
          else if HasSuffix link ''/'' then
            let dirName = TrimSuffix link ''/'' in
            if \<not> isValidFilename dirName then Continue s
            else
              let subDir = Join localDir dirName in
              if \<not> HasPrefix subDir localDir then Continue (addError s)
              else
                (case osMkdirAll (files s) (int (now s)) subDir of
                   (Some e, fs1) \<Rightarrow> Continue (addError ((emit (EvMkdirSub subDir) s)\<lparr>files := fs1\<rparr>))
                 | (None, fs1) \<Rightarrow>
                     Recurse absoluteURL subDir ((emit (EvMkdirSub subDir) s)\<lparr>files := fs1\<rparr>))
          else
            let filename = Base link in
            if \<not> isValidFilename filename then Continue s
            else
              let localPath = Join localDir filename in
              if \<not> HasPrefix localPath localDir then Continue (addError s)
              else
                Continue
                  (snd (downloadFile E ctx target absoluteURL localPath
                          (emit (EvFileLink absoluteURL localPath) s))))"

text \<open>
  The recursion. A remote tree need not be finite and \<^verbatim>\<open>MaxDepth = -1\<close> lifts the depth
  limit, so the walk may go on for ever; the first argument bounds the nesting of
  \<^verbatim>\<open>mirrorURL\<close>, and a run that would nest deeper stops as \<open>OutOfFuel\<close> with the state it
  has reached. The error of a recursive call is logged and dropped, as in the source.
\<close>

datatype 'a outcome = Returned 'a state | OutOfFuel state

fun mirrorURL ::
      "nat \<Rightarrow> env \<Rightarrow> Context \<Rightarrow> Target \<Rightarrow> string \<Rightarrow> string \<Rightarrow> int \<Rightarrow> state \<Rightarrow> (error option) outcome"
  and processLinks ::
      "nat \<Rightarrow> env \<Rightarrow> Context \<Rightarrow> Target \<Rightarrow> string \<Rightarrow> string \<Rightarrow> int \<Rightarrow> string list \<Rightarrow> state \<Rightarrow> unit outcome"
where
  "mirrorURL 0 E ctx target currentURL localDir depth s = OutOfFuel s"
| "mirrorURL (Suc n) E ctx target currentURL localDir depth s =
     (case visitURL E ctx target currentURL localDir depth s of
        Finished err s1 \<Rightarrow> Returned err s1
      | Listing links s1 \<Rightarrow>
          (case processLinks n E ctx target currentURL localDir depth links s1 of
             OutOfFuel s2 \<Rightarrow> OutOfFuel s2
           | Returned u s2 \<Rightarrow> Returned None s2))"
| "processLinks n E ctx target currentURL localDir depth [] s = Returned () s"
| "processLinks n E ctx target currentURL localDir depth (link # links) s =
     (case linkStep E ctx target currentURL localDir link s of
        Continue s1 \<Rightarrow> processLinks n E ctx target currentURL localDir depth links s1
      | Recurse absoluteURL subDir s1 \<Rightarrow>
          (case mirrorURL n E ctx target absoluteURL subDir (depth + 1) s1 of
             OutOfFuel s2 \<Rightarrow> OutOfFuel s2
           | Returned err s2 \<Rightarrow> processLinks n E ctx target currentURL localDir depth links s2))"

declare mirrorURL.simps [simp del] processLinks.simps [simp del]

text \<open>\<^verbatim>\<open>MirrorTarget\<close>, with the data path of the configuration as an argument.\<close>

definition newStats :: "nat \<Rightarrow> string \<Rightarrow> MirrorStats" where
  "newStats t name =
     \<lparr>StartTime = t, EndTime = 0, Duration = 0, StatsTarget = name, FilesDownloaded = 0,
      FilesSkipped = 0, BytesDownloaded = 0, Errors = 0\<rparr>"

definition finishStats :: "state \<Rightarrow> state" where
  "finishStats s =
     s\<lparr>stats := (stats s)\<lparr>EndTime := now s,
                           Duration := int (now s) - int (StartTime (stats s))\<rparr>\<rparr>"

definition MirrorTarget ::
  "nat \<Rightarrow> string \<Rightarrow> env \<Rightarrow> Context \<Rightarrow> Target \<Rightarrow> state \<Rightarrow> (error option) outcome" where
  "MirrorTarget n dataPath E ctx target s =
     (let targetDir = Join dataPath (Name target) in
      case osMkdirAll (files s) (int (now s)) targetDir of
        (Some e, fs1) \<Rightarrow>
          Returned (Some (Wrapped ''failed to create target directory'' (PathError e)))
            (s\<lparr>files := fs1\<rparr>)
      | (None, fs1) \<Rightarrow>
          (case mirrorURL n E ctx target (URL target) targetDir 0
                  (s\<lparr>files := fs1, stats := newStats (now s) (Name target)\<rparr>) of
             OutOfFuel s1 \<Rightarrow> OutOfFuel s1
           | Returned err s1 \<Rightarrow> Returned err (finishStats s1)))"

section \<open>Loading the configuration\<close>

text \<open>
  \<^verbatim>\<open>LoadConfig\<close> with the crawler's part of \<^verbatim>\<open>Config\<close>: the defaults, the targets and the
  data path. The process environment is a record of the variables read (empty when not
  set). A configuration file is what \<^verbatim>\<open>json.Unmarshal\<close> finds in it: a field of the
  defaults is \<open>None\<close> when its key is absent, and then the value already in the
  configuration stays; a target comes with the zero value for each absent key.
\<close>

record Config =
  cfgDefaults :: Defaults
  cfgTargets :: "Target list"
  cfgDataPath :: string

record DefaultsJSON =
  jsonUserAgent :: "string option"
  jsonRateLimit :: "string option"
  jsonRetries :: "int option"
  jsonMaxDepth :: "int option"
  jsonTimeout :: "int option"
  jsonWaitBetweenRequests :: "int option"
  jsonTimestamping :: "bool option"
  jsonNoClobber :: "bool option"
  jsonContinueDownload :: "bool option"
  jsonCheckChanges :: "bool option"

record ConfigJSON =
  jsonDefaults :: DefaultsJSON
  jsonTargets :: "Target list option"
  jsonDataPath :: "string option"

record Environ =
  envConfigFile :: string
  envMirrorURL :: string
  envMirrorName :: string
  envMirrorDataPath :: string

definition orElse :: "'a option \<Rightarrow> 'a \<Rightarrow> 'a" where
  "orElse v d = (case v of None \<Rightarrow> d | Some x \<Rightarrow> x)"

definition unmarshalDefaults :: "DefaultsJSON \<Rightarrow> Defaults \<Rightarrow> Defaults" where
  "unmarshalDefaults j d =
     \<lparr> defUserAgent = orElse (jsonUserAgent j) (defUserAgent d),
       defRateLimit = orElse (jsonRateLimit j) (defRateLimit d),
       defRetries = orElse (jsonRetries j) (defRetries d),
       defMaxDepth = orElse (jsonMaxDepth j) (defMaxDepth d),
       defTimeout = orElse (jsonTimeout j) (defTimeout d),
       defWaitBetweenRequests = orElse (jsonWaitBetweenRequests j) (defWaitBetweenRequests d),
       defTimestamping = orElse (jsonTimestamping j) (defTimestamping d),
       defNoClobber = orElse (jsonNoClobber j) (defNoClobber d),
       defContinueDownload = orElse (jsonContinueDownload j) (defContinueDownload d),
       defCheckChanges = orElse (jsonCheckChanges j) (defCheckChanges d) \<rparr>"

definition unmarshal :: "ConfigJSON \<Rightarrow> Config \<Rightarrow> Config" where
  "unmarshal j config =
     \<lparr> cfgDefaults = unmarshalDefaults (jsonDefaults j) (cfgDefaults config),
       cfgTargets = orElse (jsonTargets j) (cfgTargets config),
       cfgDataPath = orElse (jsonDataPath j) (cfgDataPath config) \<rparr>"

definition getEnv :: "string \<Rightarrow> string \<Rightarrow> string" where
  "getEnv v defaultValue = (if v \<noteq> [] then v else defaultValue)"

definition emptyTarget :: Target where
  "emptyTarget =
     \<lparr>Name = [], URL = [], UserAgent = [], RateLimit = [], Retries = 0, MaxDepth = 0,
      Timeout = 0, WaitBetweenRequests = 0, Timestamping = False, NoClobber = False,
      ContinueDownload = False, CheckChanges = False\<rparr>"

definition loadFromEnv :: "Environ \<Rightarrow> Config \<Rightarrow> Config" where
  "loadFromEnv e config =
     (if envMirrorURL e \<noteq> [] then
        config\<lparr>cfgTargets :=
          [emptyTarget\<lparr>Name := getEnv (envMirrorName e) ''default'', URL := envMirrorURL e\<rparr>]\<rparr>
      else config)"

definition LoadConfig :: "Environ \<Rightarrow> (string \<Rightarrow> ConfigJSON option) \<Rightarrow> error + Config" where
  "LoadConfig e readFile =
     (let config = \<lparr>cfgDefaults = GetDefaults, cfgTargets = [],
                     cfgDataPath = getEnv (envMirrorDataPath e) ''/data''\<rparr>
      in case (if envConfigFile e \<noteq> [] then
                 (case readFile (envConfigFile e) of
                    None \<Rightarrow> Inl (Wrapped ''failed to load config file'' (Failure ''read''))
                  | Some j \<Rightarrow> Inr (unmarshal j config))
               else Inr (loadFromEnv e config)) of
           Inl err \<Rightarrow> Inl err
         | Inr config1 \<Rightarrow>
             Inr (config1\<lparr>cfgTargets :=
                    map (\<lambda>t. applyDefaults t (cfgDefaults config1)) (cfgTargets config1)\<rparr>))"

section \<open>The specification's wording and scenarios\<close>

text \<open>
  White-space-only text, in the words of the specification: a sequence of white space
  characters, each in its UTF-8 encoding. The empty text is the empty sequence.
\<close>

definition isSpaceRun :: "string \<Rightarrow> bool" where
  "isSpaceRun s = (\<exists>es. set es \<subseteq> set spaceEncodings \<and> s = concat es)"

text \<open>
  A word in any case, in the words of the specification: some part of the link spells the
  word letter by letter, every letter written small or capital. Two letters have one more
  writing each, a character outside ASCII whose small letter they are: the Kelvin sign
  U+212A for \<open>k\<close> and the dotted capital U+0130 for \<open>i\<close>, in their UTF-8 bytes. \<open>spelt\<close>
  says that a text begins with a spelling of a word of small letters, \<open>inAnyCase\<close> that
  the link has one somewhere.
\<close>

definition smallLetters :: string where
  "smallLetters = ''abcdefghijklmnopqrstuvwxyz''"

definition capitalLetters :: string where
  "capitalLetters = ''ABCDEFGHIJKLMNOPQRSTUVWXYZ''"

definition capital :: "char \<Rightarrow> char" where
  "capital l = (case map_of (zip smallLetters capitalLetters) l of Some c \<Rightarrow> c | None \<Rightarrow> l)"

definition isSmall :: "char \<Rightarrow> bool" where
  "isSmall l = (l \<in> set smallLetters)"

definition kelvin :: string where
  "kelvin = [CHR 0xE2, CHR 0x84, CHR 0xAA]"

definition dotted :: string where
  "dotted = [CHR 0xC4, CHR 0xB0]"

definition writings :: "char \<Rightarrow> string list" where
  "writings l =
     [[l], [capital l]]
     @ (if l = CHR ''k'' then [kelvin] else [])
     @ (if l = CHR ''i'' then [dotted] else [])"

fun spelt :: "string \<Rightarrow> string \<Rightarrow> bool" where
  "spelt [] s = True"
| "spelt (l # ls) s = list_ex (\<lambda>w. prefix w s \<and> spelt ls (drop (length w) s)) (writings l)"

definition inAnyCase :: "string \<Rightarrow> string \<Rightarrow> bool" where
  "inAnyCase word link = list_ex (spelt word) (suffixes link)"

text \<open>
  The four exclusion rules of link extraction, in the words of the specification: (a) an
  absolute scheme, a fragment, or exactly \<open>/\<close> or \<open>./\<close>; (b) a parent-traversal pattern;
  (c) the words parent or back in any case, or a query character; (d) empty or white space
  only. A link survives when no rule excludes it.
\<close>

definition excludedAbsolute :: "string \<Rightarrow> bool" where
  "excludedAbsolute link =
     (list_ex (\<lambda>scheme. prefix scheme link)
        [''http://'', ''https://'', ''ftp://'', ''mailto:'', ''javascript:'', ''data:'', ''vbscript:'']
      \<or> prefix ''#'' link \<or> link = ''/'' \<or> link = ''./'')"

definition excludedParent :: "string \<Rightarrow> bool" where
  "excludedParent link =
     (sublist ''..'' link \<or> prefix ''../'' link \<or> sublist ''/..'' link \<or> suffix ''/..'' link
      \<or> link = ''..'')"

definition excludedNonContent :: "string \<Rightarrow> bool" where
  "excludedNonContent link =
     (inAnyCase ''parent'' link \<or> inAnyCase ''back'' link
      \<or> CHR ''?'' \<in> set link \<or> CHR ''&'' \<in> set link)"

definition excludedBlank :: "string \<Rightarrow> bool" where
  "excludedBlank link = isSpaceRun link"

definition survives :: "string \<Rightarrow> bool" where
  "survives link =
     (\<not> excludedAbsolute link \<and> \<not> excludedParent link \<and> \<not> excludedNonContent link
      \<and> \<not> excludedBlank link)"

text \<open>
  Scenarios: responses, a listing page made of anchors, a site that answers from a table
  of pages whatever the time, whose URLs are \<^verbatim>\<open>http://h\<close> followed by the path and whose
  links resolve by appending them to the URL of the listing, a context that is never
  done, a target, and a disk with the data directory only.
\<close>

definition anchor :: "string \<Rightarrow> string" where
  "anchor link = ''<a href='' @ [CHR 0x22] @ link @ [CHR 0x22] @ ''>'' @ link @ ''</a> ''"

definition htmlPage :: "string \<Rightarrow> Response" where
  "htmlPage body =
     \<lparr>respStatus = 200, respContentType = ''text/html'', respETag = [],
      respContentLength = None, respLastModified = None, respBody = body,
      respBodyFails = False\<rparr>"

definition listing :: "string list \<Rightarrow> Response" where
  "listing links = htmlPage (concat (map anchor links))"

definition plainFile :: "string \<Rightarrow> Response" where
  "plainFile body =
     \<lparr>respStatus = 200, respContentType = ''text/plain'', respETag = [],
      respContentLength = Some (int (length body)), respLastModified = None, respBody = body,
      respBodyFails = False\<rparr>"

definition site :: "(string \<times> Response) list \<Rightarrow> env" where
  "site pages =
     \<lparr>parseURL = (\<lambda>u. if prefix ''http://h'' u then Some (drop 8 u) else Some u),
      resolve = (\<lambda>base link. base @ link),
      server = (\<lambda>m u t. map_of pages u)\<rparr>"

definition neverDone :: Context where
  "neverDone = \<lparr>cancelAt = None, byDeadline = False\<rparr>"

definition siteTarget :: "int \<Rightarrow> bool \<Rightarrow> Target" where
  "siteTarget depth changes =
     \<lparr>Name = ''site'', URL = ''http://h/'', UserAgent = ''Test Agent'', RateLimit = [],
      Retries = 0, MaxDepth = depth, Timeout = 5, WaitBetweenRequests = 0,
      Timestamping = False, NoClobber = False, ContinueDownload = False,
      CheckChanges = changes\<rparr>"

definition dataDisk :: filesystem where
  "dataDisk = [''/'' \<mapsto> Directory 4096 0, ''/data'' \<mapsto> Directory 4096 0]"

definition startState :: state where
  "startState = \<lparr>now = 10, files = dataDisk, stats = newStats 0 [], trace = []\<rparr>"

definition stateOf :: "'a outcome \<Rightarrow> state" where
  "stateOf r = (case r of Returned x s \<Rightarrow> s | OutOfFuel s \<Rightarrow> s)"

definition staleInfo :: FileInfo where
  "staleInfo = \<lparr>InfoURL = ''http://h/f.txt'', LastModified = 100, Size = 0, ETag = [], ContentType = []\<rparr>"

definition oneFile :: filesystem where
  "oneFile = [''/data/t/f.txt'' \<mapsto> File ''hello'' 100]"

definition noDefaultsJSON :: DefaultsJSON where
  "noDefaultsJSON =
     \<lparr>jsonUserAgent = None, jsonRateLimit = None, jsonRetries = None, jsonMaxDepth = None,
      jsonTimeout = None, jsonWaitBetweenRequests = None, jsonTimestamping = None,
      jsonNoClobber = None, jsonContinueDownload = None, jsonCheckChanges = None\<rparr>"

definition zeroDepthFile :: ConfigJSON where
  "zeroDepthFile =
     \<lparr>jsonDefaults = noDefaultsJSON\<lparr>jsonMaxDepth := Some 0\<rparr>,
      jsonTargets = Some [emptyTarget\<lparr>Name := ''site'', URL := ''http://h/''\<rparr>],
      jsonDataPath = None\<rparr>"

definition fileEnviron :: Environ where
  "fileEnviron = \<lparr>envConfigFile = ''config.json'', envMirrorURL = [], envMirrorName = [],
                   envMirrorDataPath = []\<rparr>"

definition envEnviron :: Environ where
  "envEnviron = \<lparr>envConfigFile = [], envMirrorURL = ''http://h/'', envMirrorName = [],
                  envMirrorDataPath = []\<rparr>"

text \<open>
  The name that \<^verbatim>\<open>isValidFilename\<close> is asked about for a link: the link without its final
  slash for a subdirectory, the base name for a file.
\<close>

definition linkName :: "string \<Rightarrow> string" where
  "linkName link = (if HasSuffix link ''/'' then TrimSuffix link ''/'' else Base link)"


definition isRequest :: "event \<Rightarrow> bool" where
  "isRequest ev = (case ev of EvRequest m url \<Rightarrow> True | _ \<Rightarrow> False)"

definition asked :: "state \<Rightarrow> event list" where
  "asked s = filter (\<lambda>ev. \<not> isRequest ev) (trace s)"


text \<open>
  The state before the fetch of \<^verbatim>\<open>mirrorURL\<close>: below the root the crawler first sleeps
  for the wait of the target. \<open>stepState\<close> reads the state off a step of the loop.
\<close>

definition waited :: "Target \<Rightarrow> int \<Rightarrow> state \<Rightarrow> state" where
  "waited target depth s =
     (if depth > 0 \<and> WaitBetweenRequests target > 0 then sleep (GetWaitDuration target) s else s)"

definition stepState :: "step \<Rightarrow> state" where
  "stepState st = (case st of Continue s \<Rightarrow> s | Recurse u d s \<Rightarrow> s)"

text \<open>
  More scenarios: the chain root, level1, level2, level3, file of the depth test; a
  context cancelled at a given second; a listing with a nested directory link; a page
  that is a plain file at a directory URL and at the root; an HTML page without links.
\<close>

definition chainSite :: env where
  "chainSite = site
     [(''http://h/'', listing [''level1/'']),
      (''http://h/level1/'', listing [''level2/'']),
      (''http://h/level1/level2/'', listing [''level3/'']),
      (''http://h/level1/level2/level3/'', listing [''deep.txt'']),
      (''http://h/level1/level2/level3/deep.txt'', plainFile ''deep'')]"

definition cancelledAt :: "nat \<Rightarrow> Context" where
  "cancelledAt t = \<lparr>cancelAt = Some t, byDeadline = False\<rparr>"

definition nestedSite :: env where
  "nestedSite = site [(''http://h/'', listing [''docs/api/'', ''readme.txt'']),
                      (''http://h/readme.txt'', plainFile ''hello'')]"

definition dirFileSite :: env where
  "dirFileSite = site [(''http://h/files/'', plainFile ''data'')]"

definition emptyPageSite :: env where
  "emptyPageSite = site [(''http://h/'', htmlPage ''<html><body>nothing here</body></html>'')]"

definition rootFileSite :: env where
  "rootFileSite = site [(''http://h/'', plainFile ''data'')]"


text \<open>
  A listing with a subdirectory and a file, and a disk on which an earlier run has left the
  file.
\<close>

definition twoLinkSite :: env where
  "twoLinkSite = site [(''http://h/'', listing [''sub/'', ''a.txt'']),
                       (''http://h/sub/'', listing [''b.txt'']),
                       (''http://h/sub/b.txt'', plainFile ''bee''),
                       (''http://h/a.txt'', plainFile ''new'')]"

definition mirroredDisk :: filesystem where
  "mirroredDisk = dataDisk(''/data/site'' \<mapsto> Directory 4096 5,
                           ''/data/site/a.txt'' \<mapsto> File ''old'' 5)"


section \<open>Second runs\<close>


definition probe :: "env \<Rightarrow> string \<Rightarrow> FileInfo option" where
  "probe E url =
     (case parseURL E url of
        None \<Rightarrow> None
      | Some path \<Rightarrow>
          (case server E HEAD url 0 of
             None \<Rightarrow> None
           | Some resp \<Rightarrow> if respStatus resp \<noteq> 200 then None else Some (fileInfoOf url resp)))"


definition skippedBy :: "filesystem \<Rightarrow> env \<Rightarrow> string \<Rightarrow> string \<Rightarrow> bool" where
  "skippedBy fs E url path =
     (case probe E url of None \<Rightarrow> False | Some info \<Rightarrow> NeedsUpdate fs path info = Inr False)"


definition skipEvent :: "filesystem \<Rightarrow> env \<Rightarrow> event \<Rightarrow> bool" where
  "skipEvent F E ev =
     (case ev of
        EvFileLink url path \<Rightarrow> skippedBy F E url path
      | EvDirectFile url path \<Rightarrow> skippedBy F E url path
      | EvMkdirSub path \<Rightarrow> False
      | EvRequest m url \<Rightarrow> False)"

text \<open>
  A disk keeps another one when every entry of the other is in it unchanged. \<open>settled\<close>
  says that every file a run has asked for is up to date on the disk F the run started from;
  \<open>gap\<close> is the distance of the skip counter from the number of skip events, and \<open>quietAt\<close>
  the invariant of a run that downloads nothing.
\<close>

definition keeps :: "filesystem \<Rightarrow> filesystem \<Rightarrow> bool" where
  "keeps F fs = (\<forall>p. F p \<noteq> None \<longrightarrow> fs p = F p)"

definition gap :: "filesystem \<Rightarrow> env \<Rightarrow> state \<Rightarrow> int" where
  "gap F E s = FilesSkipped (stats s) - int (length (filter (skipEvent F E) (asked s)))"


definition quietAt :: "filesystem \<Rightarrow> env \<Rightarrow> int \<Rightarrow> int \<Rightarrow> state \<Rightarrow> bool" where
  "quietAt F E d g s =
     (keeps F (files s) \<and> FilesDownloaded (stats s) = d \<and> gap F E s = g)"

definition visitState :: "visit \<Rightarrow> state" where
  "visitState v = (case v of Finished err s \<Rightarrow> s | Listing links s \<Rightarrow> s)"





section \<open>Lemmas\<close>

lemma isSpaceRun_Nil: "isSpaceRun []"
  unfolding isSpaceRun_def by (rule exI [of _ "[]"]) simp

lemma isSpaceRun_append:
  assumes "isSpaceRun a" and "isSpaceRun b"
  shows "isSpaceRun (a @ b)"
proof -
  from assms obtain xs ys where "set xs \<subseteq> set spaceEncodings" "a = concat xs"
    "set ys \<subseteq> set spaceEncodings" "b = concat ys"
    unfolding isSpaceRun_def by blast
  then have "set (xs @ ys) \<subseteq> set spaceEncodings \<and> a @ b = concat (xs @ ys)" by simp
  then show ?thesis unfolding isSpaceRun_def by blast
qed

lemma isSpaceRun_single: "e \<in> set spaceEncodings \<Longrightarrow> isSpaceRun e"
  unfolding isSpaceRun_def by (rule exI [of _ "[e]"]) simp

lemma isSpaceRun_prefix:
  assumes "isSpaceRun t" and "t \<noteq> []"
  shows "\<exists>e\<in>set spaceEncodings. prefix e t"
proof -
  from assms obtain es where es: "set es \<subseteq> set spaceEncodings" "t = concat es"
    unfolding isSpaceRun_def by blast
  with assms(2) obtain e es' where "es = e # es'" by (cases es) auto
  with es have "e \<in> set spaceEncodings" and "prefix e t" by auto
  then show ?thesis by blast
qed


lemma trimLeftSpace_fixed: "find (\<lambda>e. prefix e (trimLeftSpace s)) spaceEncodings = None"
proof (induction s rule: trimLeftSpace.induct)
  case (1 s)
  show ?case
  proof (cases "find (\<lambda>e. prefix e s) spaceEncodings")
    case None
    then show ?thesis by (subst trimLeftSpace.simps) simp
  next
    case (Some e)
    with 1 show ?thesis by (subst trimLeftSpace.simps) simp
  qed
qed

lemma trimLeftSpace_run: "trimLeftSpace s = [] \<Longrightarrow> isSpaceRun s"
proof (induction s rule: trimLeftSpace.induct)
  case (1 s)
  show ?case
  proof (cases "find (\<lambda>e. prefix e s) spaceEncodings")
    case None
    with 1(2) have "s = []" by (subst (asm) trimLeftSpace.simps) simp
    then show ?thesis by (simp add: isSpaceRun_Nil)
  next
    case (Some e)
    then have e: "e \<in> set spaceEncodings" "prefix e s" by (auto simp: find_Some_iff)
    from Some 1(2) have "trimLeftSpace (drop (length e) s) = []"
      by (subst (asm) trimLeftSpace.simps) simp
    with 1(1) Some have "isSpaceRun (drop (length e) s)" by simp
    moreover from e(2) have "s = e @ drop (length e) s" by (auto simp: prefix_def)
    ultimately show ?thesis using isSpaceRun_append [OF isSpaceRun_single [OF e(1)]] by metis
  qed
qed

lemma trimRightSpace_run: "trimRightSpace s = [] \<Longrightarrow> isSpaceRun s"
proof (induction s rule: trimRightSpace.induct)
  case (1 s)
  show ?case
  proof (cases "find (\<lambda>e. suffix e s) spaceEncodings")
    case None
    with 1(2) have "s = []" by (subst (asm) trimRightSpace.simps) simp
    then show ?thesis by (simp add: isSpaceRun_Nil)
  next
    case (Some e)
    then have e: "e \<in> set spaceEncodings" "suffix e s" by (auto simp: find_Some_iff)
    from Some 1(2) have "trimRightSpace (take (length s - length e) s) = []"
      by (subst (asm) trimRightSpace.simps) simp
    with 1(1) Some have "isSpaceRun (take (length s - length e) s)" by simp
    moreover from e(2) have "s = take (length s - length e) s @ e" by (auto simp: suffix_def)
    ultimately show ?thesis using isSpaceRun_append [OF _ isSpaceRun_single [OF e(1)]] by metis
  qed
qed

lemma spaceEncodings_prefix_free:
  "\<forall>e\<in>set spaceEncodings. \<forall>e'\<in>set spaceEncodings. prefix e e' \<longrightarrow> e = e'"
  by code_simp

lemma spaceEncodings_unique:
  assumes "e \<in> set spaceEncodings" "e' \<in> set spaceEncodings" "prefix e s" "prefix e' s"
  shows "e = e'"
proof -
  from assms(3,4) have "prefix e e' \<or> prefix e' e" by (rule prefix_same_cases)
  with assms(1,2) spaceEncodings_prefix_free show ?thesis by blast
qed

lemma run_trimLeftSpace: "isSpaceRun s \<Longrightarrow> trimLeftSpace s = []"
proof (induction s rule: trimLeftSpace.induct)
  case (1 s)
  show ?case
  proof (cases "s = []")
    case True
    have "find (\<lambda>e. prefix e []) spaceEncodings = None"
      using spaceEncodings_nonempty by (auto simp: find_None_iff)
    with True show ?thesis by (subst trimLeftSpace.simps) simp
  next
    case False
    from 1(2) obtain es where es: "set es \<subseteq> set spaceEncodings" "s = concat es"
      unfolding isSpaceRun_def by blast
    with False obtain e es' where split: "es = e # es'" by (cases es) auto
    with es have e: "e \<in> set spaceEncodings" "prefix e s" by auto
    then obtain e' where f: "find (\<lambda>e. prefix e s) spaceEncodings = Some e'"
      by (cases "find (\<lambda>e. prefix e s) spaceEncodings") (auto simp: find_None_iff)
    then have "e' \<in> set spaceEncodings" "prefix e' s" by (auto simp: find_Some_iff)
    with e have "e' = e" using spaceEncodings_unique by blast
    from es split have "drop (length e) s = concat es'" "set es' \<subseteq> set spaceEncodings" by auto
    then have "isSpaceRun (drop (length e) s)" unfolding isSpaceRun_def by blast
    with 1(1) f \<open>e' = e\<close> have "trimLeftSpace (drop (length e) s) = []" by simp
    with f \<open>e' = e\<close> show ?thesis by (subst trimLeftSpace.simps) simp
  qed
qed

lemma trimRightSpace_Nil: "trimRightSpace [] = []"
proof -
  have "find (\<lambda>e. suffix e []) spaceEncodings = None"
    using spaceEncodings_nonempty by (auto simp: find_None_iff)
  then show ?thesis by (subst trimRightSpace.simps) simp
qed

lemma TrimSpace_empty_iff: "TrimSpace s = [] \<longleftrightarrow> isSpaceRun s"
proof
  assume a: "TrimSpace s = []"
  have "trimLeftSpace s = []"
  proof (rule ccontr)
    assume ne: "trimLeftSpace s \<noteq> []"
    from a have "isSpaceRun (trimLeftSpace s)"
      unfolding TrimSpace_def by (rule trimRightSpace_run)
    with ne obtain e where "e \<in> set spaceEncodings" "prefix e (trimLeftSpace s)"
      using isSpaceRun_prefix by blast
    with trimLeftSpace_fixed [of s] show False by (auto simp: find_None_iff)
  qed
  then show "isSpaceRun s" by (rule trimLeftSpace_run)
next
  assume "isSpaceRun s"
  then have "trimLeftSpace s = []" by (rule run_trimLeftSpace)
  then show "TrimSpace s = []" by (simp add: TrimSpace_def trimRightSpace_Nil)
qed


lemma sublist_single: "sublist [c] s \<longleftrightarrow> c \<in> set s"
  by (induction s) (auto simp: sublist_Cons_right)

lemma skipScheme_excluded: "skipScheme link = excludedAbsolute link"
  unfolding skipScheme_def excludedAbsolute_def HasPrefix_def list_ex_Cons_iff list_ex_Nil_iff
  by blast

lemma skipTraversal_excluded: "skipTraversal link = excludedParent link"
  unfolding skipTraversal_def excludedParent_def HasPrefix_def HasSuffix_def Contains_def ..

text \<open>
  \<^verbatim>\<open>strings.ToLower\<close> followed by a search for a word of small letters finds the word in any
  case: the result of \<open>ToLower\<close> begins with the word exactly when the text begins with a
  spelling of it, and a spelling never starts inside the bytes of the Kelvin sign or of the
  dotted capital.
\<close>

lemma small_code:
  "isSmall l \<Longrightarrow> 97 \<le> (of_char l :: nat) \<and> (of_char l :: nat) \<le> 122 \<and>
     (of_char (capital l) :: nat) + 32 = of_char l"
  unfolding isSmall_def smallLetters_def capital_def capitalLetters_def
  by auto

lemma of_char_lowerByte:
  "(of_char (lowerByte c) :: nat) =
     (if 65 \<le> (of_char c :: nat) \<and> (of_char c :: nat) \<le> 90 then of_char c + 32 else of_char c)"
  by (simp add: lowerByte_def)

lemma lowerByte_small:
  assumes "isSmall l"
  shows "lowerByte c = l \<longleftrightarrow> c = l \<or> c = capital l"
proof -
  from small_code [OF assms] have
    m: "97 \<le> (of_char l :: nat)" "(of_char l :: nat) \<le> 122"
       "(of_char (capital l) :: nat) + 32 = of_char l" by simp_all
  have e1: "lowerByte c = l \<longleftrightarrow> (of_char (lowerByte c) :: nat) = of_char l"
    by (metis char_of_char)
  have e2: "c = l \<longleftrightarrow> (of_char c :: nat) = of_char l"
    by (metis char_of_char)
  have e3: "c = capital l \<longleftrightarrow> (of_char c :: nat) = of_char (capital l)"
    by (metis char_of_char)
  show ?thesis
    unfolding e1 e2 e3 of_char_lowerByte using m by arith
qed

lemma ToLower_unfold:
  "ToLower s =
     (if prefix kelvin s then CHR ''k'' # ToLower (drop 3 s)
      else if prefix dotted s then CHR ''i'' # ToLower (drop 2 s)
      else (case s of [] \<Rightarrow> [] | a # r \<Rightarrow> lowerByte a # ToLower r))"
  by (cases s rule: ToLower.cases) (auto simp: kelvin_def dotted_def)

lemma spelt_Cons:
  "spelt (l # ls) s \<longleftrightarrow>
     (prefix [l] s \<and> spelt ls (drop 1 s)) \<or> (prefix [capital l] s \<and> spelt ls (drop 1 s)) \<or>
     (l = CHR ''k'' \<and> prefix kelvin s \<and> spelt ls (drop 3 s)) \<or>
     (l = CHR ''i'' \<and> prefix dotted s \<and> spelt ls (drop 2 s))"
  by (auto simp: writings_def kelvin_def dotted_def eval_nat_numeral)

lemma small_plain:
  assumes "isSmall l"
  shows "(of_char l :: nat) < 128" and "(of_char (capital l) :: nat) < 128"
  using small_code [OF assms] by simp_all

lemma spelt_first:
  assumes "isSmall l" and "spelt (l # ls) (c # cs)"
  shows "(of_char c :: nat) < 128 \<or> c = CHR 0xE2 \<or> c = CHR 0xC4"
  using assms(2) small_plain [OF assms(1)]
  unfolding spelt_Cons by (auto simp: kelvin_def dotted_def)

lemma prefix_ToLower:
  "list_all isSmall w \<Longrightarrow> prefix w (ToLower s) \<longleftrightarrow> spelt w s"
proof (induction w arbitrary: s)
  case Nil
  show ?case by simp
next
  case (Cons l ls)
  then have l: "isSmall l" and ls: "list_all isSmall ls" by simp_all
  note IH = Cons.IH [OF ls]
  from small_plain [OF l] have
    p: "l \<noteq> CHR 0xE2" "l \<noteq> CHR 0xC4" "capital l \<noteq> CHR 0xE2" "capital l \<noteq> CHR 0xC4"
    by auto
  show ?case
  proof (cases "prefix kelvin s")
    case True
    then obtain r where s: "s = CHR 0xE2 # CHR 0x84 # CHR 0xAA # r"
      by (auto simp: kelvin_def prefix_def)
    have "ToLower s = CHR ''k'' # ToLower r"
      by (subst ToLower_unfold) (simp add: s kelvin_def)
    then show ?thesis
      unfolding spelt_Cons using p by (auto simp add: s kelvin_def dotted_def IH)
  next
    case nk: False
    show ?thesis
    proof (cases "prefix dotted s")
      case True
      then obtain r where s: "s = CHR 0xC4 # CHR 0xB0 # r"
        by (auto simp: dotted_def prefix_def)
      have "ToLower s = CHR ''i'' # ToLower r"
        by (subst ToLower_unfold) (simp add: s kelvin_def dotted_def)
      then show ?thesis
        unfolding spelt_Cons using p by (auto simp add: s kelvin_def dotted_def IH)
    next
      case nd: False
      show ?thesis
      proof (cases s)
        case Nil
        then show ?thesis unfolding spelt_Cons by (simp add: kelvin_def dotted_def)
      next
        case (Cons a r)
        have "ToLower s = lowerByte a # ToLower r"
          using nk nd unfolding Cons by (subst ToLower_unfold) simp
        then show ?thesis
          unfolding spelt_Cons using nk nd lowerByte_small [OF l, of a]
          by (auto simp add: Cons IH)
      qed
    qed
  qed
qed

lemma not_spelt_inside:
  assumes "list_all isSmall w" and "w \<noteq> []"
    and "c = CHR 0x84 \<or> c = CHR 0xAA \<or> c = CHR 0xB0"
  shows "\<not> spelt w (c # cs)"
proof
  assume a: "spelt w (c # cs)"
  from assms obtain l ls where w: "w = l # ls" and l: "isSmall l"
    by (cases w) auto
  from spelt_first [OF l a [unfolded w]] assms(3) show False by auto
qed

lemma Contains_ToLower:
  assumes w: "list_all isSmall w" "w \<noteq> []"
  shows "Contains (ToLower s) w \<longleftrightarrow> inAnyCase w s"
proof (induction "length s" arbitrary: s rule: less_induct)
  case less
  note P = prefix_ToLower [OF w(1)]
  show ?case
  proof (cases "prefix kelvin s")
    case True
    then obtain r where s: "s = CHR 0xE2 # CHR 0x84 # CHR 0xAA # r"
      by (auto simp: kelvin_def prefix_def)
    have t: "ToLower s = CHR ''k'' # ToLower r"
      by (subst ToLower_unfold) (simp add: s kelvin_def)
    have IH: "Contains (ToLower r) w \<longleftrightarrow> inAnyCase w r"
      by (rule less) (simp add: s)
    have "Contains (ToLower s) w \<longleftrightarrow> prefix w (ToLower s) \<or> Contains (ToLower r) w"
      unfolding Contains_def t by (simp add: sublist_Cons_right)
    also have "\<dots> \<longleftrightarrow> spelt w s \<or> inAnyCase w r"
      by (simp only: P IH)
    also have "\<dots> \<longleftrightarrow> inAnyCase w s"
      using not_spelt_inside [OF w, of "CHR 0x84" "CHR 0xAA # r"]
        not_spelt_inside [OF w, of "CHR 0xAA" r]
      by (auto simp: inAnyCase_def s)
    finally show ?thesis .
  next
    case nk: False
    show ?thesis
    proof (cases "prefix dotted s")
      case True
      then obtain r where s: "s = CHR 0xC4 # CHR 0xB0 # r"
        by (auto simp: dotted_def prefix_def)
      have t: "ToLower s = CHR ''i'' # ToLower r"
        by (subst ToLower_unfold) (simp add: s kelvin_def dotted_def)
      have IH: "Contains (ToLower r) w \<longleftrightarrow> inAnyCase w r"
        by (rule less) (simp add: s)
      have "Contains (ToLower s) w \<longleftrightarrow> prefix w (ToLower s) \<or> Contains (ToLower r) w"
        unfolding Contains_def t by (simp add: sublist_Cons_right)
      also have "\<dots> \<longleftrightarrow> spelt w s \<or> inAnyCase w r"
        by (simp only: P IH)
      also have "\<dots> \<longleftrightarrow> inAnyCase w s"
        using not_spelt_inside [OF w, of "CHR 0xB0" r]
        by (auto simp: inAnyCase_def s)
      finally show ?thesis .
    next
      case nd: False
      show ?thesis
      proof (cases s)
        case Nil
        have "ToLower s = []" by (simp add: Nil)
        then show ?thesis
          using w(2) P [of "[]"] by (simp add: Contains_def inAnyCase_def Nil)
      next
        case (Cons a r)
        have t: "ToLower s = lowerByte a # ToLower r"
          using nk nd unfolding Cons by (subst ToLower_unfold) simp
        have IH: "Contains (ToLower r) w \<longleftrightarrow> inAnyCase w r"
          by (rule less) (simp add: Cons)
        have "Contains (ToLower s) w \<longleftrightarrow> prefix w (ToLower s) \<or> Contains (ToLower r) w"
          unfolding Contains_def t by (simp add: sublist_Cons_right)
        also have "\<dots> \<longleftrightarrow> spelt w s \<or> inAnyCase w r"
          by (simp only: P IH)
        also have "\<dots> \<longleftrightarrow> inAnyCase w s"
          by (auto simp: inAnyCase_def Cons)
        finally show ?thesis .
      qed
    qed
  qed
qed

lemma small_parent: "list_all isSmall ''parent''" and small_back: "list_all isSmall ''back''"
  by (simp_all add: isSmall_def smallLetters_def)

lemma skipNonContent_excluded: "skipNonContent link = excludedNonContent link"
proof -
  have p: "Contains (ToLower link) ''parent'' = inAnyCase ''parent'' link"
    by (rule Contains_ToLower [OF small_parent]) simp
  have b: "Contains (ToLower link) ''back'' = inAnyCase ''back'' link"
    by (rule Contains_ToLower [OF small_back]) simp
  show ?thesis
    unfolding skipNonContent_def excludedNonContent_def p b
    by (simp add: Contains_def sublist_single)
qed

lemma skipEmpty_excluded: "skipEmpty link = excludedBlank link"
  unfolding skipEmpty_def excludedBlank_def TrimSpace_empty_iff
  using isSpaceRun_Nil by blast

lemma scanMatches_filter: "scanMatches links matches = links @ filter survives matches"
proof (induction matches arbitrary: links)
  case Nil
  show ?case by simp
next
  case (Cons link matches)
  show ?case
    unfolding scanMatches.simps Cons.IH survives_def
      skipScheme_excluded skipTraversal_excluded skipNonContent_excluded skipEmpty_excluded
    by simp
qed

lemma applyDefaults_MaxDepth:
  "MaxDepth (applyDefaults t d) = (if MaxDepth t = 0 then defMaxDepth d else MaxDepth t)"
  by (simp add: applyDefaults_def Let_def)

lemma mirrorURL_depth_limit:
  "0 \<le> MaxDepth target \<Longrightarrow> MaxDepth target \<le> depth \<Longrightarrow>
   mirrorURL (Suc n) E ctx target currentURL localDir depth s = Returned None s"
  by (simp add: mirrorURL.simps visitURL_def depthLimitReached_def)

lemma stateOf_simps [simp]: "stateOf (Returned x s) = s" "stateOf (OutOfFuel s) = s"
  by (simp_all add: stateOf_def)

lemma asked_simps [simp]:
  "asked (addError s) = asked s"
  "asked (addSkipped s) = asked s"
  "asked (addDownloaded s) = asked s"
  "asked (addBytes k s) = asked s"
  "asked (sleep d s) = asked s"
  "asked (finishStats s) = asked s"
  "asked (s\<lparr>files := fs\<rparr>) = asked s"
  "asked (s\<lparr>now := t\<rparr>) = asked s"
  "asked (s\<lparr>stats := st\<rparr>) = asked s"
  "asked (emit (EvRequest m url) s) = asked s"
  "asked (emit (EvMkdirSub p) s) = asked s @ [EvMkdirSub p]"
  "asked (emit (EvFileLink url p) s) = asked s @ [EvFileLink url p]"
  "asked (emit (EvDirectFile url p) s) = asked s @ [EvDirectFile url p]"
  by (simp_all add: asked_def addError_def addSkipped_def addDownloaded_def addBytes_def
      sleep_def finishStats_def emit_def isRequest_def)

lemma DoRequest_asked: "DoRequest E ctx m url s = (r, s1) \<Longrightarrow> asked s1 = asked s"
  by (auto simp: DoRequest_def Let_def split: if_splits option.splits)

lemma CheckFileInfo_asked: "CheckFileInfo E ctx url s = (r, s1) \<Longrightarrow> asked s1 = asked s"
  by (auto simp: CheckFileInfo_def split: option.splits prod.splits sum.splits if_splits
      dest!: DoRequest_asked)

lemma DownloadFile_asked:
  "DownloadFile E ctx config url localPath s = (r, s1) \<Longrightarrow> asked s1 = asked s"
  unfolding DownloadFile_def Let_def
  by (auto split: option.splits prod.splits sum.splits if_splits bool.splits
      dest!: DoRequest_asked CheckFileInfo_asked)

lemma downloadFile_asked:
  "downloadFile E ctx target url localPath s = (r, s1) \<Longrightarrow> asked s1 = asked s"
  unfolding downloadFile_def
  by (auto split: option.splits prod.splits sum.splits if_splits bool.splits
      dest!: DownloadFile_asked CheckFileInfo_asked)

lemma downloadFile_asked_snd [simp]:
  "asked (snd (downloadFile E ctx target url localPath s)) = asked s"
  by (cases "downloadFile E ctx target url localPath s") (auto dest: downloadFile_asked)








lemma processLinks_Continue:
  "linkStep E ctx target currentURL localDir link s = Continue s1 \<Longrightarrow>
   processLinks n E ctx target currentURL localDir depth (link # links) s =
   processLinks n E ctx target currentURL localDir depth links s1"
  by (simp add: processLinks.simps)

lemma linkStep_invalid_name:
  assumes "parseURL E link = Some linkPath"
    and "\<not> Contains link ''..''" and "\<not> Contains link ''Parent Directory''"
    and "\<not> isValidFilename (linkName link)"
  shows "linkStep E ctx target currentURL localDir link s = Continue s"
  using assms unfolding linkStep_def Let_def linkName_def
  by (simp split: if_splits)

lemma linkStep_outside:
  assumes "parseURL E link = Some linkPath"
    and "\<not> Contains link ''..''" and "\<not> Contains link ''Parent Directory''"
    and "isValidFilename (linkName link)"
    and "\<not> HasPrefix (Join localDir (linkName link)) localDir"
  shows "linkStep E ctx target currentURL localDir link s = Continue (addError s)"
  using assms unfolding linkStep_def Let_def linkName_def
  by (simp split: if_splits)


lemma visitURL_error:
  assumes "visitURL E ctx target currentURL localDir depth s = Finished (Some err) s1"
  shows "\<not> depthLimitReached target depth \<and>
     ((ctxDone ctx (now s) \<and> err = ctxErr ctx \<and> s1 = s) \<or>
      (\<not> ctxDone ctx (now s) \<and> parseURL E currentURL = None \<and>
         err = Wrapped ''failed to parse URL'' (Failure ''parse'')) \<or>
      (\<not> ctxDone ctx (now s) \<and>
         (\<exists>cause. fst (fetchDirectoryListing E ctx currentURL (waited target depth s)) = Inl cause \<and>
            err = Wrapped ''failed to fetch directory listing'' cause)))"
  using assms unfolding visitURL_def Let_def waited_def
  by (auto split: if_splits option.splits prod.splits sum.splits)

lemma neverDone_not_done [simp]: "ctxDone neverDone t = False"
  by (simp add: ctxDone_def neverDone_def)

lemma chain_root_links: "parseDirectoryListing (listing [''level1/'']) = Inr [''level1/'']"
  by code_simp

lemma chain_level1_links: "parseDirectoryListing (listing [''level2/'']) = Inr [''level2/'']"
  by code_simp

lemma listing_html: "Contains (respContentType (listing links)) ''text/html''"
  by (simp add: listing_def htmlPage_def Contains_def)

lemma chain_parse_root: "parseURL chainSite ''http://h/'' = Some ''/''"
  by code_simp

lemma chain_parse_level1: "parseURL chainSite ''http://h/level1/'' = Some ''/level1/''"
  by code_simp

lemma chain_get_root: "server chainSite GET ''http://h/'' t = Some (listing [''level1/''])"
  by (simp add: chainSite_def site_def)

lemma chain_get_level1: "server chainSite GET ''http://h/level1/'' t = Some (listing [''level2/''])"
  by (simp add: chainSite_def site_def)

lemma chain_visit_root:
  assumes "\<not> depthLimitReached target 0"
  shows "visitURL chainSite neverDone target ''http://h/'' localDir 0 s =
     Listing [''level1/''] ((emit (EvRequest GET ''http://h/'') s)\<lparr>now := now s + 1\<rparr>)"
  using assms
  by (simp add: visitURL_def Let_def chain_parse_root fetchDirectoryListing_def DoRequest_def
      chain_get_root listing_html chain_root_links)

lemma chain_visit_level1:
  assumes "\<not> depthLimitReached target 1"
  shows "visitURL chainSite neverDone target ''http://h/level1/'' localDir 1 s =
     Listing [''level2/'']
       ((emit (EvRequest GET ''http://h/level1/'') (waited target 1 s))\<lparr>now := now (waited target 1 s) + 1\<rparr>)"
  using assms
  by (simp add: visitURL_def Let_def chain_parse_level1 fetchDirectoryListing_def DoRequest_def
      chain_get_level1 listing_html chain_level1_links waited_def)

lemma level1_facts:
  "parseURL chainSite ''level1/'' = Some ''level1/''"
  "\<not> Contains ''level1/'' ''..''" "\<not> Contains ''level1/'' ''Parent Directory''"
  "HasSuffix ''level1/'' ''/''" "TrimSuffix ''level1/'' ''/'' = ''level1''"
  "isValidFilename ''level1''" "Join ''/data/site'' ''level1'' = ''/data/site/level1''"
  "HasPrefix ''/data/site/level1'' ''/data/site''"
  "resolve chainSite ''http://h/'' ''level1/'' = ''http://h/level1/''"
  by code_simp+

lemma level2_facts:
  "parseURL chainSite ''level2/'' = Some ''level2/''"
  "\<not> Contains ''level2/'' ''..''" "\<not> Contains ''level2/'' ''Parent Directory''"
  "HasSuffix ''level2/'' ''/''" "TrimSuffix ''level2/'' ''/'' = ''level2''"
  "isValidFilename ''level2''" "Join ''/data/site/level1'' ''level2'' = ''/data/site/level1/level2''"
  "HasPrefix ''/data/site/level1/level2'' ''/data/site/level1''"
  "resolve chainSite ''http://h/level1/'' ''level2/'' = ''http://h/level1/level2/''"
  by code_simp+

lemma chain_step_level1:
  assumes "osMkdirAll (files s) (int (now s)) ''/data/site/level1'' = (None, fs1)"
  shows "linkStep chainSite neverDone target ''http://h/'' ''/data/site'' ''level1/'' s =
     Recurse ''http://h/level1/'' ''/data/site/level1''
       ((emit (EvMkdirSub ''/data/site/level1'') s)\<lparr>files := fs1\<rparr>)"
  using assms by (simp add: linkStep_def Let_def level1_facts)

lemma chain_step_level2:
  assumes "osMkdirAll (files s) (int (now s)) ''/data/site/level1/level2'' = (None, fs1)"
  shows "linkStep chainSite neverDone target ''http://h/level1/'' ''/data/site/level1'' ''level2/'' s =
     Recurse ''http://h/level1/level2/'' ''/data/site/level1/level2''
       ((emit (EvMkdirSub ''/data/site/level1/level2'') s)\<lparr>files := fs1\<rparr>)"
  using assms by (simp add: linkStep_def Let_def level2_facts)

lemma parent_facts:
  "parentDir ''/data/site'' = ''/data''"
  "parentDir ''/data/site/level1'' = ''/data/site''"
  "parentDir ''/data/site/level1/level2'' = ''/data/site/level1''"
  by code_simp+

lemma mkdir_leaf:
  assumes "fs path = None" and "isDirectory fs (parentDir path)" and "path \<noteq> []"
  shows "osMkdirAll fs tm path = (None, fs(path \<mapsto> Directory 4096 tm))"
proof -
  from assms(2) obtain sz mt where d: "fs (parentDir path) = Some (Directory sz mt)"
    by (auto simp: isDirectory_def split: option.splits node.splits)
  then have pa: "osMkdirAll fs tm (parentDir path) = (None, fs)"
    by (subst osMkdirAll.simps) (simp add: osStat_def)
  have "(if parentDir path \<noteq> [] then osMkdirAll fs tm (parentDir path) else (None, fs)) = (None, fs)"
    by (simp add: pa)
  with assms show ?thesis
    by (subst osMkdirAll.simps) (simp add: osStat_def osMkdir_def)
qed

lemma chain_depth_two:
  assumes d: "MaxDepth target = 2"
    and dir: "isDirectory (files s) ''/data/site''"
    and f1: "files s ''/data/site/level1'' = None"
    and f2: "files s ''/data/site/level1/level2'' = None"
  shows "mirrorURL (Suc (Suc (Suc n))) chainSite neverDone target ''http://h/'' ''/data/site'' 0 s =
     Returned None
       (s\<lparr>now := now (waited target 1 (s\<lparr>now := now s + 1\<rparr>)) + 1,
          files := (files s)
             (''/data/site/level1'' \<mapsto> Directory 4096 (int (now s + 1)),
              ''/data/site/level1/level2'' \<mapsto>
                 Directory 4096 (int (now (waited target 1 (s\<lparr>now := now s + 1\<rparr>)) + 1))),
          trace := trace s @
             [EvRequest GET ''http://h/'', EvMkdirSub ''/data/site/level1'',
              EvRequest GET ''http://h/level1/'', EvMkdirSub ''/data/site/level1/level2'']\<rparr>)"
proof -
  from d have l0: "\<not> depthLimitReached target 0" and l1: "\<not> depthLimitReached target 1"
    and l2: "depthLimitReached target 2"
    by (simp_all add: depthLimitReached_def)
  define s1 where "s1 = (emit (EvRequest GET ''http://h/'') s)\<lparr>now := now s + 1\<rparr>"
  have v0: "visitURL chainSite neverDone target ''http://h/'' ''/data/site'' 0 s =
      Listing [''level1/''] s1"
    unfolding s1_def using l0 by (rule chain_visit_root)
  have m1: "osMkdirAll (files s1) (int (now s1)) ''/data/site/level1'' =
      (None, (files s1)(''/data/site/level1'' \<mapsto> Directory 4096 (int (now s1))))"
    by (rule mkdir_leaf) (simp_all add: s1_def emit_def f1 dir parent_facts)
  define s2 where "s2 = (emit (EvMkdirSub ''/data/site/level1'') s1)
      \<lparr>files := (files s1)(''/data/site/level1'' \<mapsto> Directory 4096 (int (now s1)))\<rparr>"
  have k1: "linkStep chainSite neverDone target ''http://h/'' ''/data/site'' ''level1/'' s1 =
      Recurse ''http://h/level1/'' ''/data/site/level1'' s2"
    unfolding s2_def using m1 by (rule chain_step_level1)
  define s3 where "s3 = (emit (EvRequest GET ''http://h/level1/'') (waited target 1 s2))
      \<lparr>now := now (waited target 1 s2) + 1\<rparr>"
  have v1: "visitURL chainSite neverDone target ''http://h/level1/'' ''/data/site/level1'' 1 s2 =
      Listing [''level2/''] s3"
    unfolding s3_def using l1 by (rule chain_visit_level1)
  have files3: "files s3 = (files s)(''/data/site/level1'' \<mapsto> Directory 4096 (int (now s + 1)))"
    by (simp add: s3_def s2_def s1_def emit_def waited_def sleep_def)
  have m2: "osMkdirAll (files s3) (int (now s3)) ''/data/site/level1/level2'' =
      (None, (files s3)(''/data/site/level1/level2'' \<mapsto> Directory 4096 (int (now s3))))"
    by (rule mkdir_leaf) (simp_all add: files3 f2 parent_facts isDirectory_def)
  define s4 where "s4 = (emit (EvMkdirSub ''/data/site/level1/level2'') s3)
      \<lparr>files := (files s3)(''/data/site/level1/level2'' \<mapsto> Directory 4096 (int (now s3)))\<rparr>"
  have k2: "linkStep chainSite neverDone target ''http://h/level1/'' ''/data/site/level1'' ''level2/'' s3 =
      Recurse ''http://h/level1/level2/'' ''/data/site/level1/level2'' s4"
    unfolding s4_def using m2 by (rule chain_step_level2)
  have r2: "mirrorURL (Suc n) chainSite neverDone target ''http://h/level1/level2/''
      ''/data/site/level1/level2'' 2 s4 = Returned None s4"
    using l2 by (simp add: mirrorURL.simps visitURL_def)
  have p1: "processLinks (Suc n) chainSite neverDone target ''http://h/level1/''
      ''/data/site/level1'' 1 [''level2/''] s3 = Returned () s4"
    by (simp add: processLinks.simps k2 r2)
  have r1: "mirrorURL (Suc (Suc n)) chainSite neverDone target ''http://h/level1/''
      ''/data/site/level1'' 1 s2 = Returned None s4"
    by (simp add: mirrorURL.simps v1 p1)
  have p0: "processLinks (Suc (Suc n)) chainSite neverDone target ''http://h/''
      ''/data/site'' 0 [''level1/''] s1 = Returned () s4"
    by (simp add: processLinks.simps k1 r1)
  have r0: "mirrorURL (Suc (Suc (Suc n))) chainSite neverDone target ''http://h/''
      ''/data/site'' 0 s = Returned None s4"
    by (simp add: mirrorURL.simps v0 p0)
  have "s4 = s\<lparr>now := now (waited target 1 (s\<lparr>now := now s + 1\<rparr>)) + 1,
          files := (files s)
             (''/data/site/level1'' \<mapsto> Directory 4096 (int (now s + 1)),
              ''/data/site/level1/level2'' \<mapsto>
                 Directory 4096 (int (now (waited target 1 (s\<lparr>now := now s + 1\<rparr>)) + 1))),
          trace := trace s @
             [EvRequest GET ''http://h/'', EvMkdirSub ''/data/site/level1'',
              EvRequest GET ''http://h/level1/'', EvMkdirSub ''/data/site/level1/level2'']\<rparr>"
    by (simp add: s4_def s3_def s2_def s1_def emit_def waited_def sleep_def)
  with r0 show ?thesis by simp
qed

lemma site_dir_made:
  "osMkdirAll dataDisk tm ''/data/site'' = (None, dataDisk(''/data/site'' \<mapsto> Directory 4096 tm))"
  by (rule mkdir_leaf) (simp_all add: dataDisk_def parent_facts isDirectory_def)

lemma Base_facts: "Base [] = ''.''" "Base ''/'' = ''/''" "Base ''/files/'' = ''files''"
  by code_simp+

lemma visitURL_direct:
  assumes "\<not> depthLimitReached target depth" and "\<not> ctxDone ctx (now s)"
    and "parseURL E currentURL = Some path"
    and "fetchDirectoryListing E ctx currentURL (waited target depth s) = (Inr resp, s2)"
    and "Contains (respContentType resp) ''text/html'' \<longrightarrow> parseDirectoryListing resp = Inr []"
    and "name = (if Base path = ''.'' \<or>
                    (Base path = ''/'' \<and> \<not> Contains (respContentType resp) ''text/html'')
                 then ''index.html'' else Base path)"
  shows "visitURL E ctx target currentURL localDir depth s =
     Finished None
       (snd (downloadFile E ctx target currentURL (Join localDir name)
               (emit (EvDirectFile currentURL (Join localDir name)) s2)))"
proof -
  have b: "Base path \<noteq> []"
    by (auto simp: Base_def Let_def)
  from assms b show ?thesis
    unfolding visitURL_def Let_def waited_def
    by (cases "Contains (respContentType resp) ''text/html''") simp_all
qed


subsection \<open>Runs that download nothing\<close>











lemma quietAt_simps [simp]:
  "quietAt F E d g (addError s) = quietAt F E d g s"
  "quietAt F E d g (sleep w s) = quietAt F E d g s"
  "quietAt F E d g (s\<lparr>now := t\<rparr>) = quietAt F E d g s"
  "quietAt F E d g (emit (EvRequest m url) s) = quietAt F E d g s"
  "quietAt F E d g (emit (EvMkdirSub p) s) = quietAt F E d g s"
  by (simp_all add: quietAt_def gap_def addError_def sleep_def emit_def asked_def isRequest_def
      skipEvent_def)


lemma visitState_simps [simp]:
  "visitState (Finished err s) = s" "visitState (Listing links s) = s"
  by (simp_all add: visitState_def)

lemma stepState_simps [simp]:
  "stepState (Continue s) = s" "stepState (Recurse u d s) = s"
  by (simp_all add: stepState_def)









lemma quietAt_waited [simp]: "quietAt F E d g (waited target depth s) = quietAt F E d g s"
  by (simp add: waited_def)

lemma asked_waited [simp]: "asked (waited target depth s) = asked s"
  by (simp add: waited_def)










section \<open>Claim C1: writes stay inside the root\<close>




section \<open>Claim C2: link extraction\<close>

lemma candidates_matches:
  "FindAllStringSubmatch (concat (map anchor
       [''file1.txt'', ''subdir/'', ''../'', ''?order=name'', ''mailto:a@b.com'', ''javascript:void(0)'']))
   = [''file1.txt'', ''subdir/'', ''../'', ''?order=name'', ''mailto:a@b.com'', ''javascript:void(0)'']"
  by code_simp

lemma candidates_scan:
  "scanMatches [] [''file1.txt'', ''subdir/'', ''../'', ''?order=name'', ''mailto:a@b.com'', ''javascript:void(0)'']
   = [''file1.txt'', ''subdir/'']"
  by code_simp

lemma capitals_matches:
  "FindAllStringSubmatch (concat (map anchor
       [''Parent/'', ''BACKUP/'', ''apPARENTly.txt'', ''bac'' @ kelvin @ ''.txt'', ''notes.txt'']))
   = [''Parent/'', ''BACKUP/'', ''apPARENTly.txt'', ''bac'' @ kelvin @ ''.txt'', ''notes.txt'']"
  by code_simp

lemma capitals_scan:
  "scanMatches []
     [''Parent/'', ''BACKUP/'', ''apPARENTly.txt'', ''bac'' @ kelvin @ ''.txt'', ''notes.txt'']
   = [''notes.txt'']"
  by code_simp

text \<open>
  Claim C2. Link extraction returns exactly the captured hrefs of the body that survive
  the four exclusion rules, in the order of the document (and fails when the body cannot
  be read). For a listing with the links file1.txt, subdir/, ../, ?order=name,
  mailto:a@b.com and javascript:void(0) it returns file1.txt and subdir/, in that order.
  The words parent and back exclude a link in any case: of Parent/, BACKUP/,
  apPARENTly.txt, bac followed by the Kelvin sign, and notes.txt, only notes.txt is
  returned.
\<close>

theorem parseDirectoryListing_survivors:
  "parseDirectoryListing resp =
     (if respBodyFails resp then Inl (Failure ''read'')
      else Inr (filter survives (FindAllStringSubmatch (respBody resp))))
   \<and> parseDirectoryListing (listing
         [''file1.txt'', ''subdir/'', ''../'', ''?order=name'', ''mailto:a@b.com'',
          ''javascript:void(0)''])
     = Inr [''file1.txt'', ''subdir/'']
   \<and> parseDirectoryListing (listing
         [''Parent/'', ''BACKUP/'', ''apPARENTly.txt'', ''bac'' @ kelvin @ ''.txt'', ''notes.txt''])
     = Inr [''notes.txt'']"
proof (intro conjI)
  show "parseDirectoryListing resp =
     (if respBodyFails resp then Inl (Failure ''read'')
      else Inr (filter survives (FindAllStringSubmatch (respBody resp))))"
    by (simp add: parseDirectoryListing_def scanMatches_filter)
  show "parseDirectoryListing (listing
         [''file1.txt'', ''subdir/'', ''../'', ''?order=name'', ''mailto:a@b.com'',
          ''javascript:void(0)''])
     = Inr [''file1.txt'', ''subdir/'']"
    unfolding parseDirectoryListing_def listing_def htmlPage_def
    by (simp only: Response.simps if_False candidates_matches candidates_scan)
  show "parseDirectoryListing (listing
         [''Parent/'', ''BACKUP/'', ''apPARENTly.txt'', ''bac'' @ kelvin @ ''.txt'', ''notes.txt''])
     = Inr [''notes.txt'']"
    unfolding parseDirectoryListing_def listing_def htmlPage_def
    by (simp only: Response.simps if_False capitals_matches capitals_scan)
qed

theorem parseDirectoryListing_survivors_witness:
  "filter survives (FindAllStringSubmatch (respBody (listing
      [''file1.txt'', ''subdir/'', ''../'', ''?order=name'', ''mailto:a@b.com'',
       ''javascript:void(0)''])))
   = [''file1.txt'', ''subdir/'']
   \<and> filter survives (FindAllStringSubmatch (respBody (listing
      [''Parent/'', ''BACKUP/'', ''apPARENTly.txt'', ''bac'' @ kelvin @ ''.txt'', ''notes.txt''])))
   = [''notes.txt'']
   \<and> excludedNonContent ''Parent/'' \<and> excludedNonContent ''BACKUP/''
   \<and> \<not> excludedNonContent ''notes.txt''"
proof -
  let ?page = "listing
      [''file1.txt'', ''subdir/'', ''../'', ''?order=name'', ''mailto:a@b.com'',
       ''javascript:void(0)'']"
  let ?caps = "listing
      [''Parent/'', ''BACKUP/'', ''apPARENTly.txt'', ''bac'' @ kelvin @ ''.txt'', ''notes.txt'']"
  have ok: "respBodyFails ?page = False" "respBodyFails ?caps = False"
    by (simp_all add: listing_def htmlPage_def)
  have a: "parseDirectoryListing ?page =
      (if respBodyFails ?page then Inl (Failure ''read'')
       else Inr (filter survives (FindAllStringSubmatch (respBody ?page))))"
    by (rule conjunct1 [OF parseDirectoryListing_survivors [of ?page]])
  have a': "parseDirectoryListing ?caps =
      (if respBodyFails ?caps then Inl (Failure ''read'')
       else Inr (filter survives (FindAllStringSubmatch (respBody ?caps))))"
    by (rule conjunct1 [OF parseDirectoryListing_survivors [of ?caps]])
  have b: "parseDirectoryListing ?page = Inr [''file1.txt'', ''subdir/'']"
    by (rule conjunct1 [OF conjunct2 [OF parseDirectoryListing_survivors [of ?page]]])
  have b': "parseDirectoryListing ?caps = Inr [''notes.txt'']"
    by (rule conjunct2 [OF conjunct2 [OF parseDirectoryListing_survivors [of ?page]]])
  from a have "parseDirectoryListing ?page =
      Inr (filter survives (FindAllStringSubmatch (respBody ?page)))"
    by (simp only: ok if_False)
  with b have "Inr (filter survives (FindAllStringSubmatch (respBody ?page)))
      = (Inr [''file1.txt'', ''subdir/''] :: error + string list)"
    by (simp only:)
  then have r1: "filter survives (FindAllStringSubmatch (respBody ?page))
      = [''file1.txt'', ''subdir/'']"
    by (simp only: sum.inject)
  from a' have "parseDirectoryListing ?caps =
      Inr (filter survives (FindAllStringSubmatch (respBody ?caps)))"
    by (simp only: ok if_False)
  with b' have "Inr (filter survives (FindAllStringSubmatch (respBody ?caps)))
      = (Inr [''notes.txt''] :: error + string list)"
    by (simp only:)
  then have r2: "filter survives (FindAllStringSubmatch (respBody ?caps)) = [''notes.txt'']"
    by (simp only: sum.inject)
  have e1: "excludedNonContent ''Parent/''" by code_simp
  have e2: "excludedNonContent ''BACKUP/''" by code_simp
  have e3: "\<not> excludedNonContent ''notes.txt''" by code_simp
  from r1 r2 e1 e2 e3 show ?thesis by (simp only: simp_thms)
qed

section \<open>Claim C3: change detection\<close>

text \<open>
  Against claim C3 as stated: a local file of 5 bytes and a remote size reported as 0,
  the remote date not after the local one. The sizes differ and \<^verbatim>\<open>NeedsUpdate\<close> is false.
\<close>

theorem NeedsUpdate_size_zero_counterexample:
  "NeedsUpdate oneFile ''/data/t/f.txt'' staleInfo = Inr False \<and>
   osStat oneFile ''/data/t/f.txt'' = Inr \<lparr>statSize = 5, statModTime = 100, statIsDir = False\<rparr> \<and>
   Size staleInfo = 0"
  by (simp add: NeedsUpdate_def osStat_def oneFile_def staleInfo_def)

text \<open>
  Claim C3, amended. \<^verbatim>\<open>NeedsUpdate\<close> is true when the local file is absent; otherwise true
  when the remote date is set (not the zero time) and after the local modification time;
  otherwise true when the remote size is positive and differs from the local size;
  otherwise false. A remote size of 0 or less is not compared. A failure of stat other
  than not-found is an error.
\<close>

theorem NeedsUpdate_decision:
  "NeedsUpdate fs localPath remoteInfo =
     (case fs localPath of
        None \<Rightarrow> Inr True
      | Some NoAccess \<Rightarrow> Inl (Wrapped ''failed to stat local file'' (PathError EACCES))
      | Some (File content mtime) \<Rightarrow>
          Inr ((LastModified remoteInfo \<noteq> 0 \<and> mtime < LastModified remoteInfo) \<or>
               (0 < Size remoteInfo \<and> int (length content) \<noteq> Size remoteInfo))
      | Some (Directory sz mtime) \<Rightarrow>
          Inr ((LastModified remoteInfo \<noteq> 0 \<and> mtime < LastModified remoteInfo) \<or>
               (0 < Size remoteInfo \<and> sz \<noteq> Size remoteInfo)))"
  by (simp add: NeedsUpdate_def osStat_def IsNotExist_def split: option.split node.split)

theorem NeedsUpdate_decision_witness:
  "NeedsUpdate oneFile ''/data/t/g.txt'' staleInfo = Inr True \<and>
   NeedsUpdate oneFile ''/data/t/f.txt'' (staleInfo\<lparr>LastModified := 101\<rparr>) = Inr True \<and>
   NeedsUpdate oneFile ''/data/t/f.txt'' (staleInfo\<lparr>Size := 6\<rparr>) = Inr True \<and>
   NeedsUpdate oneFile ''/data/t/f.txt'' (staleInfo\<lparr>Size := 5\<rparr>) = Inr False \<and>
   NeedsUpdate (oneFile(''/data/t/f.txt'' \<mapsto> NoAccess)) ''/data/t/f.txt'' staleInfo
     = Inl (Wrapped ''failed to stat local file'' (PathError EACCES))"
  unfolding NeedsUpdate_decision
  by (simp add: oneFile_def staleInfo_def)

section \<open>Claim C4: cancellation\<close>

text \<open>
  Against claim C4: the code does not do what the claim says. In the first run the context
  is cancelled at second 11, after the fetch of the root listing, which starts at second 10
  and takes one. The recursive call for level1 returns the cancellation error, the root
  level logs it, and the run returns no error. In the second run, without change detection
  and cancelled at the same moment, the loop goes on after the cancelled call for sub/: the
  file link a.txt is processed, the local file of an earlier run is truncated, its request
  fails, and the run still returns no error.
\<close>

theorem cancellation_swallowed_counterexample:
  "\<not> ctxDone (cancelledAt 11) (now startState) \<and>
   (case MirrorTarget 5 ''/data'' chainSite (cancelledAt 11) (siteTarget 5 True) startState of
      OutOfFuel s \<Rightarrow> False
    | Returned err s \<Rightarrow>
        err = None \<and> ctxDone (cancelledAt 11) (now s) \<and>
        trace s = [EvRequest GET ''http://h/'', EvMkdirSub ''/data/site/level1'']) \<and>
   mirroredDisk ''/data/site/a.txt'' = Some (File ''old'' 5) \<and>
   (case MirrorTarget 5 ''/data'' twoLinkSite (cancelledAt 11) (siteTarget 5 False)
           (startState\<lparr>files := mirroredDisk\<rparr>) of
      OutOfFuel s \<Rightarrow> False
    | Returned err s \<Rightarrow>
        err = None \<and> ctxDone (cancelledAt 11) (now s) \<and>
        files s ''/data/site/a.txt'' = Some (File [] 11) \<and>
        trace s = [EvRequest GET ''http://h/'', EvMkdirSub ''/data/site/sub'',
                   EvFileLink ''http://h/a.txt'' ''/data/site/a.txt''])"
  by code_simp

text \<open>
  Claim C4, the code level by level. A call of the crawl function whose depth limit is not
  reached returns the cancellation error when the signal has fired by the time it checks
  it on entry (lines 90 to 95), and the fetch error that wraps the cancellation when the
  signal fires during its wait. An error that a call returns is always one of its own
  level: the cancellation found on entry, its URL not parsing, or the fetch of its own URL
  failing. The last part is where the code leaves the claim: the error of a recursive call
  for a subdirectory, whatever it is, is dropped by the loop of the parent (lines 188 to
  190), which goes on with the remaining links.
\<close>

theorem cancellation_reaches_caller_from_own_level:
  "(\<not> depthLimitReached target depth \<longrightarrow> ctxDone ctx (now s) \<longrightarrow>
      mirrorURL (Suc n) E ctx target currentURL localDir depth s = Returned (Some (ctxErr ctx)) s)
   \<and> (\<not> depthLimitReached target depth \<longrightarrow> \<not> ctxDone ctx (now s) \<longrightarrow>
      parseURL E currentURL = Some path \<longrightarrow> ctxDone ctx (now (waited target depth s)) \<longrightarrow>
      mirrorURL (Suc n) E ctx target currentURL localDir depth s =
        Returned (Some (Wrapped ''failed to fetch directory listing'' (Wrapped ''request'' (ctxErr ctx))))
          (addError (waited target depth s)))
   \<and> (mirrorURL (Suc n) E ctx target currentURL localDir depth s = Returned (Some err) s1 \<longrightarrow>
        \<not> depthLimitReached target depth \<and>
        ((ctxDone ctx (now s) \<and> err = ctxErr ctx \<and> s1 = s) \<or>
         (\<not> ctxDone ctx (now s) \<and> parseURL E currentURL = None \<and>
            err = Wrapped ''failed to parse URL'' (Failure ''parse'')) \<or>
         (\<not> ctxDone ctx (now s) \<and>
            (\<exists>cause. fst (fetchDirectoryListing E ctx currentURL (waited target depth s)) = Inl cause \<and>
               err = Wrapped ''failed to fetch directory listing'' cause))))
   \<and> (linkStep E ctx target currentURL localDir link s = Recurse u d s1 \<longrightarrow>
        mirrorURL n E ctx target u d (depth + 1) s1 = Returned (Some err) s2 \<longrightarrow>
        processLinks n E ctx target currentURL localDir depth (link # links) s =
        processLinks n E ctx target currentURL localDir depth links s2)"
proof (intro conjI impI)
  assume "\<not> depthLimitReached target depth" and "ctxDone ctx (now s)"
  then show "mirrorURL (Suc n) E ctx target currentURL localDir depth s =
      Returned (Some (ctxErr ctx)) s"
    by (simp add: mirrorURL.simps visitURL_def)
next
  assume "\<not> depthLimitReached target depth" and "\<not> ctxDone ctx (now s)"
    and "parseURL E currentURL = Some path" and "ctxDone ctx (now (waited target depth s))"
  then show "mirrorURL (Suc n) E ctx target currentURL localDir depth s =
        Returned (Some (Wrapped ''failed to fetch directory listing'' (Wrapped ''request'' (ctxErr ctx))))
          (addError (waited target depth s))"
    by (simp add: mirrorURL.simps visitURL_def Let_def waited_def fetchDirectoryListing_def
        DoRequest_def)
next
  assume a: "mirrorURL (Suc n) E ctx target currentURL localDir depth s = Returned (Some err) s1"
  have "visitURL E ctx target currentURL localDir depth s = Finished (Some err) s1"
  proof (cases "visitURL E ctx target currentURL localDir depth s")
    case (Finished e s')
    with a show ?thesis by (simp add: mirrorURL.simps)
  next
    case (Listing links s')
    with a show ?thesis
      by (cases "processLinks n E ctx target currentURL localDir depth links s'")
         (simp_all add: mirrorURL.simps)
  qed
  then have r: "\<not> depthLimitReached target depth \<and>
        ((ctxDone ctx (now s) \<and> err = ctxErr ctx \<and> s1 = s) \<or>
         (\<not> ctxDone ctx (now s) \<and> parseURL E currentURL = None \<and>
            err = Wrapped ''failed to parse URL'' (Failure ''parse'')) \<or>
         (\<not> ctxDone ctx (now s) \<and>
            (\<exists>cause. fst (fetchDirectoryListing E ctx currentURL (waited target depth s)) = Inl cause \<and>
               err = Wrapped ''failed to fetch directory listing'' cause)))"
    by (rule visitURL_error)
  from r show "\<not> depthLimitReached target depth" by blast
  from r show "(ctxDone ctx (now s) \<and> err = ctxErr ctx \<and> s1 = s) \<or>
         (\<not> ctxDone ctx (now s) \<and> parseURL E currentURL = None \<and>
            err = Wrapped ''failed to parse URL'' (Failure ''parse'')) \<or>
         (\<not> ctxDone ctx (now s) \<and>
            (\<exists>cause. fst (fetchDirectoryListing E ctx currentURL (waited target depth s)) = Inl cause \<and>
               err = Wrapped ''failed to fetch directory listing'' cause))" by blast
next
  assume "linkStep E ctx target currentURL localDir link s = Recurse u d s1"
    and "mirrorURL n E ctx target u d (depth + 1) s1 = Returned (Some err) s2"
  then show "processLinks n E ctx target currentURL localDir depth (link # links) s =
        processLinks n E ctx target currentURL localDir depth links s2"
    by (simp add: processLinks.simps)
qed

lemma root_step_recurse:
  "(case linkStep chainSite (cancelledAt 10) (siteTarget 5 True) ''http://h/'' ''/data'' ''level1/'' startState of
      Continue s \<Rightarrow> False
    | Recurse u d s \<Rightarrow> u = ''http://h/level1/'' \<and> d = ''/data/level1'' \<and> now s = 10 \<and>
        trace s = [EvMkdirSub ''/data/level1''])"
  by code_simp

theorem cancellation_reaches_caller_from_own_level_witness:
  "\<not> depthLimitReached (siteTarget 5 True) 0 \<and> ctxDone (cancelledAt 10) (now startState) \<and>
   mirrorURL 1 chainSite (cancelledAt 10) (siteTarget 5 True) ''http://h/'' ''/data'' 0 startState
     = Returned (Some Canceled) startState \<and>
   \<not> depthLimitReached ((siteTarget 5 True)\<lparr>WaitBetweenRequests := 3\<rparr>) 1 \<and>
   \<not> ctxDone (cancelledAt 12) (now startState) \<and>
   parseURL chainSite ''http://h/level1/'' = Some ''/level1/'' \<and>
   ctxDone (cancelledAt 12) (now (waited ((siteTarget 5 True)\<lparr>WaitBetweenRequests := 3\<rparr>) 1 startState)) \<and>
   mirrorURL 1 chainSite (cancelledAt 12) ((siteTarget 5 True)\<lparr>WaitBetweenRequests := 3\<rparr>)
       ''http://h/level1/'' ''/data/level1'' 1 startState
     = Returned (Some (Wrapped ''failed to fetch directory listing'' (Wrapped ''request'' Canceled)))
         (addError (waited ((siteTarget 5 True)\<lparr>WaitBetweenRequests := 3\<rparr>) 1 startState)) \<and>
   linkStep chainSite (cancelledAt 10) (siteTarget 5 True) ''http://h/'' ''/data'' ''level1/'' startState
     = Recurse ''http://h/level1/'' ''/data/level1''
         (stepState (linkStep chainSite (cancelledAt 10) (siteTarget 5 True) ''http://h/'' ''/data''
            ''level1/'' startState)) \<and>
   processLinks 1 chainSite (cancelledAt 10) (siteTarget 5 True) ''http://h/'' ''/data'' 0
       [''level1/''] startState
     = Returned () (stepState (linkStep chainSite (cancelledAt 10) (siteTarget 5 True) ''http://h/''
         ''/data'' ''level1/'' startState))"
proof -
  let ?t = "siteTarget 5 True" and ?w = "(siteTarget 5 True)\<lparr>WaitBetweenRequests := 3\<rparr>"
  let ?c = "cancelledAt 10"
  let ?k = "linkStep chainSite ?c ?t ''http://h/'' ''/data'' ''level1/'' startState"
  have a1: "\<not> depthLimitReached ?t 0" by code_simp
  have a2: "ctxDone ?c (now startState)" by code_simp
  have a3: "ctxErr ?c = Canceled" by code_simp
  have b1: "\<not> depthLimitReached ?w 1" by code_simp
  have b2: "\<not> ctxDone (cancelledAt 12) (now startState)" by code_simp
  have b3: "parseURL chainSite ''http://h/level1/'' = Some ''/level1/''" by code_simp
  have b4: "ctxDone (cancelledAt 12) (now (waited ?w 1 startState))" by code_simp
  have b5: "ctxErr (cancelledAt 12) = Canceled" by code_simp
  note inst1 = cancellation_reaches_caller_from_own_level
     [where target = ?t and depth = 0 and ctx = ?c and s = startState and n = 0 and E = chainSite
        and currentURL = "''http://h/''" and localDir = "''/data''" and link = "''level1/''"
        and u = "''http://h/level1/''" and d = "''/data/level1''" and ?s1.0 = "stepState ?k"
        and ?s2.0 = "stepState ?k" and err = Canceled and links = "[]"]
  from inst1 a1 a2 a3 have r1:
    "mirrorURL 1 chainSite ?c ?t ''http://h/'' ''/data'' 0 startState = Returned (Some Canceled) startState"
    by simp
  note inst2 = cancellation_reaches_caller_from_own_level
     [where target = ?w and depth = 1 and ctx = "cancelledAt 12" and s = startState and n = 0
        and E = chainSite and currentURL = "''http://h/level1/''" and localDir = "''/data/level1''"
        and path = "''/level1/''"]
  from inst2 b1 b2 b3 b4 b5 have r2:
    "mirrorURL 1 chainSite (cancelledAt 12) ?w ''http://h/level1/'' ''/data/level1'' 1 startState
     = Returned (Some (Wrapped ''failed to fetch directory listing'' (Wrapped ''request'' Canceled)))
         (addError (waited ?w 1 startState))"
    by simp
  have k: "?k = Recurse ''http://h/level1/'' ''/data/level1'' (stepState ?k)"
    using root_step_recurse by (cases ?k) (simp_all add: stepState_def)
  have n: "now (stepState ?k) = 10"
    using root_step_recurse by (cases ?k) (simp_all add: stepState_def)
  have d: "ctxDone ?c (now (stepState ?k))" unfolding n by code_simp
  note inst3 = cancellation_reaches_caller_from_own_level
     [where target = ?t and depth = "0 + 1" and ctx = ?c and s = "stepState ?k" and n = 0
        and E = chainSite and currentURL = "''http://h/level1/''" and localDir = "''/data/level1''"]
  have a1': "\<not> depthLimitReached ?t (0 + 1)" by code_simp
  from inst3 a1' d a3 have child:
    "mirrorURL 1 chainSite ?c ?t ''http://h/level1/'' ''/data/level1'' (0 + 1) (stepState ?k)
     = Returned (Some Canceled) (stepState ?k)"
    by simp
  note inst4 = cancellation_reaches_caller_from_own_level
     [where target = ?t and depth = 0 and ctx = ?c and s = startState and n = 1 and E = chainSite
        and currentURL = "''http://h/''" and localDir = "''/data''" and link = "''level1/''"
        and u = "''http://h/level1/''" and d = "''/data/level1''" and ?s1.0 = "stepState ?k"
        and ?s2.0 = "stepState ?k" and err = Canceled and links = "[]"]
  from inst4 k child have
    "processLinks 1 chainSite ?c ?t ''http://h/'' ''/data'' 0 [''level1/''] startState =
     processLinks 1 chainSite ?c ?t ''http://h/'' ''/data'' 0 [] (stepState ?k)"
    by simp
  then have r3: "processLinks 1 chainSite ?c ?t ''http://h/'' ''/data'' 0 [''level1/''] startState =
     Returned () (stepState ?k)"
    by (simp add: processLinks.simps)
  from a1 a2 r1 b1 b2 b3 b4 r2 k r3 show ?thesis by simp
qed

section \<open>Claim C5: a second run over an unchanged tree\<close>




section \<open>Claim C6: the depth limit\<close>

lemma unlimited_reaches_file:
  "(case MirrorTarget 5 ''/data'' chainSite neverDone (siteTarget (- 1) False) startState of
      OutOfFuel s1 \<Rightarrow> False
    | Returned err s1 \<Rightarrow>
        err = None \<and> Errors (stats s1) = 0 \<and> FilesDownloaded (stats s1) = 1 \<and>
        files s1 ''/data/site/level1/level2/level3/deep.txt'' = Some (File ''deep'' 15))"
  by code_simp

text \<open>
  Claim C6. For every target with a depth limit of 2 that crawls the chain root, level1,
  level2, level3, file into a fresh mirror, the run returns no error, level1 and level2
  are directories afterwards, level3 and the file below it are not there and were never
  asked for, and no error is counted. A call at or beyond the depth limit returns no
  error and leaves the state, the error counter included, as it was. With a depth limit
  of -1 the limit is never reached; on the chain the file below level3 is then
  downloaded.
\<close>

theorem depth_limit_two_on_chain:
  "(MaxDepth target = 2 \<longrightarrow> Name target = ''site'' \<longrightarrow> URL target = ''http://h/'' \<longrightarrow>
    files s = dataDisk \<longrightarrow>
      (\<exists>s1. MirrorTarget (Suc (Suc (Suc n))) ''/data'' chainSite neverDone target s = Returned None s1 \<and>
         isDirectory (files s1) ''/data/site/level1'' \<and>
         isDirectory (files s1) ''/data/site/level1/level2'' \<and>
         files s1 ''/data/site/level1/level2/level3'' = None \<and>
         files s1 ''/data/site/level1/level2/level3/deep.txt'' = None \<and>
         Errors (stats s1) = 0 \<and> FilesDownloaded (stats s1) = 0 \<and>
         trace s1 = trace s @
           [EvRequest GET ''http://h/'', EvMkdirSub ''/data/site/level1'',
            EvRequest GET ''http://h/level1/'', EvMkdirSub ''/data/site/level1/level2'']))
   \<and> (depthLimitReached target depth \<longrightarrow>
        mirrorURL (Suc n) E ctx target currentURL localDir depth s = Returned None s)
   \<and> (MaxDepth target = - 1 \<longrightarrow> \<not> depthLimitReached target depth)
   \<and> (case MirrorTarget 5 ''/data'' chainSite neverDone (siteTarget (- 1) False) startState of
        OutOfFuel s1 \<Rightarrow> False
      | Returned err s1 \<Rightarrow>
          err = None \<and> Errors (stats s1) = 0 \<and> FilesDownloaded (stats s1) = 1 \<and>
          files s1 ''/data/site/level1/level2/level3/deep.txt'' = Some (File ''deep'' 15))"
proof (intro conjI impI)
  assume d: "MaxDepth target = 2" and nm: "Name target = ''site''"
    and u: "URL target = ''http://h/''" and f: "files s = dataDisk"
  have j: "Join ''/data'' ''site'' = ''/data/site''" by code_simp
  let ?s0 = "s\<lparr>files := dataDisk(''/data/site'' \<mapsto> Directory 4096 (int (now s))),
                stats := newStats (now s) ''site''\<rparr>"
  have dir: "isDirectory (files ?s0) ''/data/site''" by (simp add: isDirectory_def)
  have f1: "files ?s0 ''/data/site/level1'' = None" by (simp add: dataDisk_def)
  have f2: "files ?s0 ''/data/site/level1/level2'' = None" by (simp add: dataDisk_def)
  note run = chain_depth_two [OF d dir f1 f2, of n]
  let ?s1 = "finishStats (?s0\<lparr>now := now (waited target 1 (?s0\<lparr>now := now ?s0 + 1\<rparr>)) + 1,
          files := (files ?s0)
             (''/data/site/level1'' \<mapsto> Directory 4096 (int (now ?s0 + 1)),
              ''/data/site/level1/level2'' \<mapsto>
                 Directory 4096 (int (now (waited target 1 (?s0\<lparr>now := now ?s0 + 1\<rparr>)) + 1))),
          trace := trace ?s0 @
             [EvRequest GET ''http://h/'', EvMkdirSub ''/data/site/level1'',
              EvRequest GET ''http://h/level1/'', EvMkdirSub ''/data/site/level1/level2'']\<rparr>)"
  have m: "MirrorTarget (Suc (Suc (Suc n))) ''/data'' chainSite neverDone target s = Returned None ?s1"
    unfolding MirrorTarget_def Let_def nm u j f site_dir_made
    using run by simp
  have "isDirectory (files ?s1) ''/data/site/level1'' \<and>
         isDirectory (files ?s1) ''/data/site/level1/level2'' \<and>
         files ?s1 ''/data/site/level1/level2/level3'' = None \<and>
         files ?s1 ''/data/site/level1/level2/level3/deep.txt'' = None \<and>
         Errors (stats ?s1) = 0 \<and> FilesDownloaded (stats ?s1) = 0 \<and>
         trace ?s1 = trace s @
           [EvRequest GET ''http://h/'', EvMkdirSub ''/data/site/level1'',
            EvRequest GET ''http://h/level1/'', EvMkdirSub ''/data/site/level1/level2'']"
    by (simp add: finishStats_def isDirectory_def dataDisk_def newStats_def)
  with m show "\<exists>s1. MirrorTarget (Suc (Suc (Suc n))) ''/data'' chainSite neverDone target s = Returned None s1 \<and>
         isDirectory (files s1) ''/data/site/level1'' \<and>
         isDirectory (files s1) ''/data/site/level1/level2'' \<and>
         files s1 ''/data/site/level1/level2/level3'' = None \<and>
         files s1 ''/data/site/level1/level2/level3/deep.txt'' = None \<and>
         Errors (stats s1) = 0 \<and> FilesDownloaded (stats s1) = 0 \<and>
         trace s1 = trace s @
           [EvRequest GET ''http://h/'', EvMkdirSub ''/data/site/level1'',
            EvRequest GET ''http://h/level1/'', EvMkdirSub ''/data/site/level1/level2'']"
    by blast
next
  assume "depthLimitReached target depth"
  then show "mirrorURL (Suc n) E ctx target currentURL localDir depth s = Returned None s"
    by (simp add: mirrorURL.simps visitURL_def)
next
  assume "MaxDepth target = - 1"
  then show "\<not> depthLimitReached target depth"
    by (simp add: depthLimitReached_def)
next
  show "(case MirrorTarget 5 ''/data'' chainSite neverDone (siteTarget (- 1) False) startState of
        OutOfFuel s1 \<Rightarrow> False
      | Returned err s1 \<Rightarrow>
          err = None \<and> Errors (stats s1) = 0 \<and> FilesDownloaded (stats s1) = 1 \<and>
          files s1 ''/data/site/level1/level2/level3/deep.txt'' = Some (File ''deep'' 15))"
    by (rule unlimited_reaches_file)
qed

theorem depth_limit_two_on_chain_witness:
  "MaxDepth (siteTarget 2 True) = 2 \<and> Name (siteTarget 2 True) = ''site'' \<and>
   URL (siteTarget 2 True) = ''http://h/'' \<and> files startState = dataDisk \<and>
   (\<exists>s1. MirrorTarget 3 ''/data'' chainSite neverDone (siteTarget 2 True) startState = Returned None s1 \<and>
         isDirectory (files s1) ''/data/site/level1'' \<and>
         isDirectory (files s1) ''/data/site/level1/level2'' \<and>
         files s1 ''/data/site/level1/level2/level3'' = None \<and>
         files s1 ''/data/site/level1/level2/level3/deep.txt'' = None \<and>
         Errors (stats s1) = 0 \<and> FilesDownloaded (stats s1) = 0 \<and>
         trace s1 =
           [EvRequest GET ''http://h/'', EvMkdirSub ''/data/site/level1'',
            EvRequest GET ''http://h/level1/'', EvMkdirSub ''/data/site/level1/level2'']) \<and>
   depthLimitReached (siteTarget 2 True) 2 \<and>
   mirrorURL 1 chainSite neverDone (siteTarget 2 True) ''http://h/level1/level2/''
      ''/data/site/level1/level2'' 2 startState = Returned None startState \<and>
   MaxDepth (siteTarget (- 1) True) = - 1 \<and> \<not> depthLimitReached (siteTarget (- 1) True) 1000"
proof -
  have a: "MaxDepth (siteTarget 2 True) = 2" "Name (siteTarget 2 True) = ''site''"
    "URL (siteTarget 2 True) = ''http://h/''" "files startState = dataDisk"
    "trace startState = []"
    by (simp_all add: siteTarget_def startState_def)
  have b: "depthLimitReached (siteTarget 2 True) 2" by code_simp
  have c: "MaxDepth (siteTarget (- 1) True) = - 1" by (simp add: siteTarget_def)
  note inst1 = depth_limit_two_on_chain [where target = "siteTarget 2 True" and s = startState
      and n = 0 and depth = 2 and E = chainSite and ctx = neverDone
      and currentURL = "''http://h/level1/level2/''" and localDir = "''/data/site/level1/level2''"]
  note inst2 = depth_limit_two_on_chain [where target = "siteTarget (- 1) True" and depth = 1000]
  from inst1 a have r1: "\<exists>s1. MirrorTarget 3 ''/data'' chainSite neverDone (siteTarget 2 True) startState = Returned None s1 \<and>
         isDirectory (files s1) ''/data/site/level1'' \<and>
         isDirectory (files s1) ''/data/site/level1/level2'' \<and>
         files s1 ''/data/site/level1/level2/level3'' = None \<and>
         files s1 ''/data/site/level1/level2/level3/deep.txt'' = None \<and>
         Errors (stats s1) = 0 \<and> FilesDownloaded (stats s1) = 0 \<and>
         trace s1 =
           [EvRequest GET ''http://h/'', EvMkdirSub ''/data/site/level1'',
            EvRequest GET ''http://h/level1/'', EvMkdirSub ''/data/site/level1/level2'']"
    by (simp add: eval_nat_numeral)
  from inst1 b have r2: "mirrorURL 1 chainSite neverDone (siteTarget 2 True) ''http://h/level1/level2/''
      ''/data/site/level1/level2'' 2 startState = Returned None startState"
    by simp
  from inst2 c have r3: "\<not> depthLimitReached (siteTarget (- 1) True) 1000" by blast
  from a r1 b r2 c r3 show ?thesis by blast
qed

section \<open>Claim C7: security rejections\<close>

text \<open>
  Against claim C7 as stated: a listing with the links docs/api/ and readme.txt. The name
  docs/api fails the name validation; the link is skipped, readme.txt is downloaded, and the
  error counter stays at zero.
\<close>

theorem rejected_name_not_counted_counterexample:
  "parseDirectoryListing (listing [''docs/api/'', ''readme.txt'']) = Inr [''docs/api/'', ''readme.txt'']
   \<and> \<not> isValidFilename (linkName ''docs/api/'')
   \<and> (case MirrorTarget 3 ''/data'' nestedSite neverDone (siteTarget 5 False) startState of
        OutOfFuel s \<Rightarrow> False
      | Returned err s \<Rightarrow>
          err = None \<and> Errors (stats s) = 0 \<and> FilesDownloaded (stats s) = 1 \<and>
          trace s = [EvRequest GET ''http://h/'',
                     EvFileLink ''http://h/readme.txt'' ''/data/site/readme.txt'',
                     EvRequest GET ''http://h/readme.txt''])"
  by code_simp

text \<open>
  Claim C7, amended. Every security rejection during the walk skips one link only and
  the loop goes on with the next one. A failed name validation of a subdirectory or file
  name leaves the state as it was, the error counter included; a failed path-containment
  check adds one to the error counter and changes nothing else.
\<close>

theorem rejections_skip_one_link:
  "parseURL E link = Some linkPath \<longrightarrow>
   \<not> Contains link ''..'' \<longrightarrow> \<not> Contains link ''Parent Directory'' \<longrightarrow>
     (\<not> isValidFilename (linkName link) \<longrightarrow>
        processLinks n E ctx target currentURL localDir depth (link # links) s =
        processLinks n E ctx target currentURL localDir depth links s)
     \<and> (isValidFilename (linkName link) \<longrightarrow>
        \<not> HasPrefix (Join localDir (linkName link)) localDir \<longrightarrow>
          processLinks n E ctx target currentURL localDir depth (link # links) s =
          processLinks n E ctx target currentURL localDir depth links (addError s)
          \<and> Errors (stats (addError s)) = Errors (stats s) + 1
          \<and> trace (addError s) = trace s \<and> files (addError s) = files s)"
proof (intro impI conjI)
  assume a: "parseURL E link = Some linkPath" "\<not> Contains link ''..''"
    "\<not> Contains link ''Parent Directory''"
  {
    assume "\<not> isValidFilename (linkName link)"
    with a have "linkStep E ctx target currentURL localDir link s = Continue s"
      by (rule linkStep_invalid_name)
    then show "processLinks n E ctx target currentURL localDir depth (link # links) s =
        processLinks n E ctx target currentURL localDir depth links s"
      by (rule processLinks_Continue)
  }
  {
    assume "isValidFilename (linkName link)"
      and "\<not> HasPrefix (Join localDir (linkName link)) localDir"
    with a have "linkStep E ctx target currentURL localDir link s = Continue (addError s)"
      by (rule linkStep_outside)
    then show "processLinks n E ctx target currentURL localDir depth (link # links) s =
        processLinks n E ctx target currentURL localDir depth links (addError s)"
      by (rule processLinks_Continue)
  }
  show "Errors (stats (addError s)) = Errors (stats s) + 1"
    by (simp add: addError_def)
  show "trace (addError s) = trace s"
    by (simp add: addError_def)
  show "files (addError s) = files s"
    by (simp add: addError_def)
qed

theorem rejections_skip_one_link_witness:
  "parseURL nestedSite ''docs/api/'' = Some ''docs/api/'' \<and>
   \<not> Contains ''docs/api/'' ''..'' \<and> \<not> Contains ''docs/api/'' ''Parent Directory'' \<and>
   \<not> isValidFilename (linkName ''docs/api/'') \<and>
   processLinks 1 nestedSite neverDone (siteTarget 1 False) ''http://h/'' ''/data/site'' 0
       [''docs/api/''] startState = Returned () startState \<and>
   parseURL nestedSite ''a.txt'' = Some ''a.txt'' \<and>
   \<not> Contains ''a.txt'' ''..'' \<and> \<not> Contains ''a.txt'' ''Parent Directory'' \<and>
   isValidFilename (linkName ''a.txt'') \<and> \<not> HasPrefix (Join ''.'' (linkName ''a.txt'')) ''.'' \<and>
   processLinks 1 nestedSite neverDone (siteTarget 1 False) ''http://h/'' ''.'' 0 [''a.txt'']
       startState = Returned () (addError startState) \<and>
   Errors (stats (addError startState)) = 1"
proof -
  have u1: "parseURL nestedSite ''docs/api/'' = Some ''docs/api/''" by code_simp
  have a1: "\<not> Contains ''docs/api/'' ''..''" by code_simp
  have b1: "\<not> Contains ''docs/api/'' ''Parent Directory''" by code_simp
  have v1: "\<not> isValidFilename (linkName ''docs/api/'')" by code_simp
  have u2: "parseURL nestedSite ''a.txt'' = Some ''a.txt''" by code_simp
  have a2: "\<not> Contains ''a.txt'' ''..''" by code_simp
  have b2: "\<not> Contains ''a.txt'' ''Parent Directory''" by code_simp
  have v2: "isValidFilename (linkName ''a.txt'')" by code_simp
  have o2: "\<not> HasPrefix (Join ''.'' (linkName ''a.txt'')) ''.''" by code_simp
  have e0: "Errors (stats startState) = 0" by (simp add: startState_def newStats_def)
  from rejections_skip_one_link [of nestedSite "''docs/api/''" "''docs/api/''" 1 neverDone
      "siteTarget 1 False" "''http://h/''" "''/data/site''" 0 "[]" startState] u1 a1 b1 v1
  have r1: "processLinks 1 nestedSite neverDone (siteTarget 1 False) ''http://h/'' ''/data/site'' 0
       [''docs/api/''] startState = Returned () startState"
    by (simp add: processLinks.simps)
  from rejections_skip_one_link [of nestedSite "''a.txt''" "''a.txt''" 1 neverDone
      "siteTarget 1 False" "''http://h/''" "''.''" 0 "[]" startState] u2 a2 b2 v2 o2
  have r2: "processLinks 1 nestedSite neverDone (siteTarget 1 False) ''http://h/'' ''.'' 0 [''a.txt'']
       startState = Returned () (addError startState)"
    and r3: "Errors (stats (addError startState)) = Errors (stats startState) + 1"
    by (simp_all add: processLinks.simps)
  from u1 a1 b1 v1 r1 u2 a2 b2 v2 o2 r2 r3 e0 show ?thesis by simp
qed

section \<open>Claim C8: the default file name\<close>

text \<open>
  Against claim C8 as stated: a plain file served at the directory path /files/ is saved
  as files, not as index.html; and an HTML page without links at the bare root / is
  asked to be saved under the path of the local directory itself, which fails and counts
  an error, with no index.html written.
\<close>

theorem default_filename_counterexample:
  "parseURL dirFileSite ''http://h/files/'' = Some ''/files/'' \<and>
   (case MirrorTarget 2 ''/data'' dirFileSite neverDone
           ((siteTarget 1 False)\<lparr>URL := ''http://h/files/''\<rparr>) startState of
      OutOfFuel s \<Rightarrow> False
    | Returned err s \<Rightarrow>
        err = None \<and>
        trace s = [EvRequest GET ''http://h/files/'',
                   EvDirectFile ''http://h/files/'' ''/data/site/files'',
                   EvRequest GET ''http://h/files/''] \<and>
        files s ''/data/site/files'' = Some (File ''data'' 12) \<and>
        files s ''/data/site/index.html'' = None) \<and>
   parseURL emptyPageSite ''http://h/'' = Some ''/'' \<and>
   parseDirectoryListing (htmlPage ''<html><body>nothing here</body></html>'') = Inr [] \<and>
   (case MirrorTarget 2 ''/data'' emptyPageSite neverDone (siteTarget 1 False) startState of
      OutOfFuel s \<Rightarrow> False
    | Returned err s \<Rightarrow>
        err = None \<and>
        trace s = [EvRequest GET ''http://h/'', EvDirectFile ''http://h/'' ''/data/site''] \<and>
        Errors (stats s) = 1 \<and> FilesDownloaded (stats s) = 0 \<and>
        files s ''/data/site/index.html'' = None)"
  by code_simp

text \<open>
  Claim C8, amended. When the page is no listing (it is not HTML, or it is HTML and link
  extraction yields no link), it is saved under index.html if the last element of the
  URL's path is \<open>.\<close>, as it is for the empty path, in both cases, and if the path is the
  bare root / in the case of a page that is not HTML. Any other path is saved under its
  last element, so a directory path such as /files/ is saved as files.
\<close>

theorem default_filename:
  "(\<not> depthLimitReached target depth \<longrightarrow> \<not> ctxDone ctx (now s) \<longrightarrow>
    parseURL E currentURL = Some path \<longrightarrow>
    fetchDirectoryListing E ctx currentURL (waited target depth s) = (Inr resp, s2) \<longrightarrow>
    (Contains (respContentType resp) ''text/html'' \<longrightarrow> parseDirectoryListing resp = Inr []) \<longrightarrow>
      (Base path = ''.'' \<or> (Base path = ''/'' \<and> \<not> Contains (respContentType resp) ''text/html'') \<longrightarrow>
         visitURL E ctx target currentURL localDir depth s =
           Finished None
             (snd (downloadFile E ctx target currentURL (Join localDir ''index.html'')
                     (emit (EvDirectFile currentURL (Join localDir ''index.html'')) s2))))
      \<and> (Base path \<noteq> ''.'' \<and> Base path \<noteq> ''/'' \<longrightarrow>
         visitURL E ctx target currentURL localDir depth s =
           Finished None
             (snd (downloadFile E ctx target currentURL (Join localDir (Base path))
                     (emit (EvDirectFile currentURL (Join localDir (Base path))) s2)))))
   \<and> Base [] = ''.'' \<and> Base ''/'' = ''/'' \<and> Base ''/files/'' = ''files''"
proof (intro conjI impI)
  assume a: "\<not> depthLimitReached target depth" "\<not> ctxDone ctx (now s)"
    "parseURL E currentURL = Some path"
    "fetchDirectoryListing E ctx currentURL (waited target depth s) = (Inr resp, s2)"
    "Contains (respContentType resp) ''text/html'' \<longrightarrow> parseDirectoryListing resp = Inr []"
  {
    assume "Base path = ''.'' \<or> (Base path = ''/'' \<and> \<not> Contains (respContentType resp) ''text/html'')"
    then have "''index.html'' = (if Base path = ''.'' \<or>
                    (Base path = ''/'' \<and> \<not> Contains (respContentType resp) ''text/html'')
                 then ''index.html'' else Base path)" by simp
    with a show "visitURL E ctx target currentURL localDir depth s =
           Finished None
             (snd (downloadFile E ctx target currentURL (Join localDir ''index.html'')
                     (emit (EvDirectFile currentURL (Join localDir ''index.html'')) s2)))"
      by (rule visitURL_direct)
  }
  {
    assume "Base path \<noteq> ''.'' \<and> Base path \<noteq> ''/''"
    then have "Base path = (if Base path = ''.'' \<or>
                    (Base path = ''/'' \<and> \<not> Contains (respContentType resp) ''text/html'')
                 then ''index.html'' else Base path)" by simp
    with a show "visitURL E ctx target currentURL localDir depth s =
           Finished None
             (snd (downloadFile E ctx target currentURL (Join localDir (Base path))
                     (emit (EvDirectFile currentURL (Join localDir (Base path))) s2)))"
      by (rule visitURL_direct)
  }
qed (rule Base_facts)+

theorem default_filename_witness:
  "\<not> depthLimitReached (siteTarget 1 False) 0 \<and> \<not> ctxDone neverDone (now startState) \<and>
   parseURL rootFileSite ''http://h/'' = Some ''/'' \<and>
   fetchDirectoryListing rootFileSite neverDone ''http://h/'' (waited (siteTarget 1 False) 0 startState)
     = (Inr (plainFile ''data''), (emit (EvRequest GET ''http://h/'') startState)\<lparr>now := 11\<rparr>) \<and>
   \<not> Contains (respContentType (plainFile ''data'')) ''text/html'' \<and>
   Base ''/'' = ''/'' \<and>
   visitURL rootFileSite neverDone (siteTarget 1 False) ''http://h/'' ''/data/site'' 0 startState =
     Finished None
       (snd (downloadFile rootFileSite neverDone (siteTarget 1 False) ''http://h/''
               (Join ''/data/site'' ''index.html'')
               (emit (EvDirectFile ''http://h/'' (Join ''/data/site'' ''index.html''))
                  ((emit (EvRequest GET ''http://h/'') startState)\<lparr>now := 11\<rparr>)))) \<and>
   parseURL dirFileSite ''http://h/files/'' = Some ''/files/'' \<and>
   fetchDirectoryListing dirFileSite neverDone ''http://h/files/'' (waited (siteTarget 1 False) 0 startState)
     = (Inr (plainFile ''data''), (emit (EvRequest GET ''http://h/files/'') startState)\<lparr>now := 11\<rparr>) \<and>
   Base ''/files/'' = ''files'' \<and>
   visitURL dirFileSite neverDone (siteTarget 1 False) ''http://h/files/'' ''/data/site'' 0 startState =
     Finished None
       (snd (downloadFile dirFileSite neverDone (siteTarget 1 False) ''http://h/files/''
               (Join ''/data/site'' ''files'')
               (emit (EvDirectFile ''http://h/files/'' (Join ''/data/site'' ''files''))
                  ((emit (EvRequest GET ''http://h/files/'') startState)\<lparr>now := 11\<rparr>))))"
proof -
  let ?t = "siteTarget 1 False"
  let ?s2 = "(emit (EvRequest GET ''http://h/'') startState)\<lparr>now := 11\<rparr>"
  let ?s3 = "(emit (EvRequest GET ''http://h/files/'') startState)\<lparr>now := 11\<rparr>"
  have l: "\<not> depthLimitReached ?t 0" by code_simp
  have c: "\<not> ctxDone neverDone (now startState)" by simp
  have p1: "parseURL rootFileSite ''http://h/'' = Some ''/''" by code_simp
  have p2: "parseURL dirFileSite ''http://h/files/'' = Some ''/files/''" by code_simp
  have n: "now startState = 10" by (simp add: startState_def)
  have f1: "fetchDirectoryListing rootFileSite neverDone ''http://h/'' (waited ?t 0 startState)
      = (Inr (plainFile ''data''), ?s2)"
    by (simp add: fetchDirectoryListing_def p1 DoRequest_def waited_def n rootFileSite_def site_def)
  have f2: "fetchDirectoryListing dirFileSite neverDone ''http://h/files/'' (waited ?t 0 startState)
      = (Inr (plainFile ''data''), ?s3)"
    by (simp add: fetchDirectoryListing_def p2 DoRequest_def waited_def n dirFileSite_def site_def)
  have h: "\<not> Contains (respContentType (plainFile ''data'')) ''text/html''" by code_simp
  have b1: "Base ''/'' = ''/''" and b2: "Base ''/files/'' = ''files''" by code_simp+
  have b3: "Base ''/files/'' \<noteq> ''.'' \<and> Base ''/files/'' \<noteq> ''/''" by code_simp
  note inst1 = default_filename [where target = ?t and depth = 0 and ctx = neverDone
      and s = startState and E = rootFileSite and currentURL = "''http://h/''" and path = "''/''"
      and resp = "plainFile ''data''" and ?s2.0 = ?s2 and localDir = "''/data/site''"]
  note inst2 = default_filename [where target = ?t and depth = 0 and ctx = neverDone
      and s = startState and E = dirFileSite and currentURL = "''http://h/files/''"
      and path = "''/files/''" and resp = "plainFile ''data''" and ?s2.0 = ?s3
      and localDir = "''/data/site''"]
  from inst1 l c p1 f1 h b1 have r1:
    "visitURL rootFileSite neverDone ?t ''http://h/'' ''/data/site'' 0 startState =
     Finished None
       (snd (downloadFile rootFileSite neverDone ?t ''http://h/'' (Join ''/data/site'' ''index.html'')
               (emit (EvDirectFile ''http://h/'' (Join ''/data/site'' ''index.html'')) ?s2)))"
    by blast
  from inst2 l c p2 f2 h b2 b3 have r2:
    "visitURL dirFileSite neverDone ?t ''http://h/files/'' ''/data/site'' 0 startState =
     Finished None
       (snd (downloadFile dirFileSite neverDone ?t ''http://h/files/'' (Join ''/data/site'' ''files'')
               (emit (EvDirectFile ''http://h/files/'' (Join ''/data/site'' ''files'')) ?s3)))"
    by simp
  from l c p1 f1 h b1 r1 p2 f2 b2 r2 show ?thesis by blast
qed

section \<open>Claim C9: name validation\<close>

text \<open>
  Claim C9. Name validation rejects a candidate name exactly when it is empty or consists
  of white space only, or contains \<open>..\<close>, a slash or a backslash; every other name is
  accepted.
\<close>

theorem isValidFilename_iff:
  "isValidFilename name \<longleftrightarrow>
     \<not> (name = [] \<or> isSpaceRun name \<or> Contains name ''..'' \<or> Contains name ''/''
        \<or> Contains name [CHR 0x5C])"
  by (auto simp: isValidFilename_def TrimSpace_empty_iff isSpaceRun_Nil)

theorem isValidFilename_iff_witness:
  "isValidFilename ''file1.txt'' \<and> \<not> isSpaceRun ''file1.txt'' \<and>
   \<not> isValidFilename ''a/b'' \<and> Contains ''a/b'' ''/'' \<and>
   \<not> isValidFilename [CHR 0x20, CHR 0x09] \<and> isSpaceRun [CHR 0x20, CHR 0x09]"
proof -
  have v: "isValidFilename ''file1.txt''" by code_simp
  have s: "\<not> isValidFilename ''a/b''" by code_simp
  have c: "Contains ''a/b'' ''/''" by code_simp
  have w: "\<not> isValidFilename [CHR 0x20, CHR 0x09]" by code_simp
  from v have "\<not> isSpaceRun ''file1.txt''"
    using isValidFilename_iff [of "''file1.txt''"] by blast
  moreover from w have "isSpaceRun [CHR 0x20, CHR 0x09]"
  proof -
    have "\<not> Contains [CHR 0x20, CHR 0x09] ''..''" by code_simp
    moreover have "\<not> Contains [CHR 0x20, CHR 0x09] ''/''" by code_simp
    moreover have "\<not> Contains [CHR 0x20, CHR 0x09] [CHR 0x5C]" by code_simp
    ultimately show ?thesis
      using w isValidFilename_iff [of "[CHR 0x20, CHR 0x09]"] by blast
  qed
  ultimately show ?thesis using v s c w by blast
qed

section \<open>Claim C10: a depth limit of zero\<close>

text \<open>
  Against claim C10 as stated: a configuration file may set the defaults, and with
  \<^verbatim>\<open>{"defaults": {"maxDepth": 0}, "targets": [{"name": "site", "url": "http://h/"}]}\<close>
  the loaded target has a depth limit of zero.
\<close>

theorem LoadConfig_zero_depth_counterexample:
  "(case LoadConfig fileEnviron (\<lambda>name. Some zeroDepthFile) of
      Inl err \<Rightarrow> False
    | Inr config \<Rightarrow> map MaxDepth (cfgTargets config) = [0])"
  by (simp add: LoadConfig_def fileEnviron_def zeroDepthFile_def unmarshal_def
      unmarshalDefaults_def orElse_def noDefaultsJSON_def emptyTarget_def getEnv_def
      applyDefaults_MaxDepth)

text \<open>
  Claim C10, amended. With a depth limit of zero \<^verbatim>\<open>MirrorTarget\<close> makes the target's
  directory and returns at once: no request is sent, nothing else is written, the
  counters are zero, and the result is no error unless the directory cannot be made.
  Through \<^verbatim>\<open>LoadConfig\<close> no target has a depth limit of zero as long as the defaults in
  force have none, which is so when the configuration comes from the process environment
  (the built-in default is 5); a file that sets the default to zero leaves the zero.
\<close>

theorem MirrorTarget_zero_depth:
  "(MaxDepth target = 0 \<longrightarrow>
      MirrorTarget (Suc n) dataPath E ctx target s =
        (case osMkdirAll (files s) (int (now s)) (Join dataPath (Name target)) of
           (Some e, fs1) \<Rightarrow>
             Returned (Some (Wrapped ''failed to create target directory'' (PathError e)))
               (s\<lparr>files := fs1\<rparr>)
         | (None, fs1) \<Rightarrow>
             Returned None
               (finishStats (s\<lparr>files := fs1, stats := newStats (now s) (Name target)\<rparr>))))
   \<and> (LoadConfig e readFile = Inr config \<longrightarrow> defMaxDepth (cfgDefaults config) \<noteq> 0 \<longrightarrow>
        (\<forall>t \<in> set (cfgTargets config). MaxDepth t \<noteq> 0))
   \<and> (LoadConfig e readFile = Inr config \<longrightarrow> envConfigFile e = [] \<longrightarrow>
        defMaxDepth (cfgDefaults config) = 5)"
proof (intro conjI impI)
  assume "MaxDepth target = 0"
  then show "MirrorTarget (Suc n) dataPath E ctx target s =
        (case osMkdirAll (files s) (int (now s)) (Join dataPath (Name target)) of
           (Some e, fs1) \<Rightarrow>
             Returned (Some (Wrapped ''failed to create target directory'' (PathError e)))
               (s\<lparr>files := fs1\<rparr>)
         | (None, fs1) \<Rightarrow>
             Returned None
               (finishStats (s\<lparr>files := fs1, stats := newStats (now s) (Name target)\<rparr>)))"
    unfolding MirrorTarget_def Let_def
    by (simp add: mirrorURL_depth_limit split: prod.split option.split)
next
  assume l: "LoadConfig e readFile = Inr config" and d: "defMaxDepth (cfgDefaults config) \<noteq> 0"
  from l obtain c1 where c: "config = c1\<lparr>cfgTargets :=
      map (\<lambda>t. applyDefaults t (cfgDefaults c1)) (cfgTargets c1)\<rparr>"
    by (auto simp: LoadConfig_def Let_def split: if_splits option.splits sum.splits)
  with d have "defMaxDepth (cfgDefaults c1) \<noteq> 0" by simp
  with c show "\<forall>t \<in> set (cfgTargets config). MaxDepth t \<noteq> 0"
    by (auto simp: applyDefaults_MaxDepth)
next
  assume "LoadConfig e readFile = Inr config" and "envConfigFile e = []"
  then show "defMaxDepth (cfgDefaults config) = 5"
    by (auto simp: LoadConfig_def Let_def loadFromEnv_def GetDefaults_def split: if_splits)
qed

theorem MirrorTarget_zero_depth_witness:
  "MaxDepth (siteTarget 0 True) = 0 \<and>
   MirrorTarget 1 ''/data'' (site []) neverDone (siteTarget 0 True) startState =
     Returned None
       (finishStats (startState\<lparr>files := dataDisk(''/data/site'' \<mapsto> Directory 4096 10),
                                 stats := newStats 10 ''site''\<rparr>)) \<and>
   LoadConfig envEnviron (\<lambda>name. None) =
     Inr \<lparr>cfgDefaults = GetDefaults,
          cfgTargets = [applyDefaults (emptyTarget\<lparr>Name := ''default'', URL := ''http://h/''\<rparr>) GetDefaults],
          cfgDataPath = ''/data''\<rparr> \<and>
   MaxDepth (applyDefaults (emptyTarget\<lparr>Name := ''default'', URL := ''http://h/''\<rparr>) GetDefaults) = 5"
proof -
  let ?config = "\<lparr>cfgDefaults = GetDefaults,
          cfgTargets = [applyDefaults (emptyTarget\<lparr>Name := ''default'', URL := ''http://h/''\<rparr>) GetDefaults],
          cfgDataPath = ''/data''\<rparr>"
  have d: "MaxDepth (siteTarget 0 True) = 0"
    by (simp add: siteTarget_def)
  have j: "Join ''/data'' (Name (siteTarget 0 True)) = ''/data/site''"
    by (simp add: siteTarget_def Join_def Clean_def cleanStep_def)
  have m: "osMkdirAll (files startState) (int (now startState)) ''/data/site''
      = (None, dataDisk(''/data/site'' \<mapsto> Directory 4096 10))"
    by (simp add: osMkdirAll.simps [of _ _ "''/data/site''"] osMkdirAll.simps [of _ _ "''/data''"]
          osStat_def osMkdir_def parentDir_def stripTrailingSlashes_def isDirectory_def
          startState_def dataDisk_def)
  have l: "LoadConfig envEnviron (\<lambda>name. None) = Inr ?config"
    by (simp add: LoadConfig_def envEnviron_def loadFromEnv_def getEnv_def)
  have g: "defMaxDepth (cfgDefaults ?config) \<noteq> 0"
    by (simp add: GetDefaults_def)
  have n: "now startState = 10"
    by (simp add: startState_def)
  have a: "MaxDepth (applyDefaults (emptyTarget\<lparr>Name := ''default'', URL := ''http://h/''\<rparr>) GetDefaults) = 5"
    by (simp add: applyDefaults_MaxDepth emptyTarget_def GetDefaults_def)
  from MirrorTarget_zero_depth [of "siteTarget 0 True" 0 "''/data''" "site []" neverDone
      startState envEnviron "\<lambda>name. None" ?config] d j m l g
  have "MirrorTarget 1 ''/data'' (site []) neverDone (siteTarget 0 True) startState =
     Returned None
       (finishStats (startState\<lparr>files := dataDisk(''/data/site'' \<mapsto> Directory 4096 10),
                                 stats := newStats (now startState) (Name (siteTarget 0 True))\<rparr>))"
    by simp
  then have "MirrorTarget 1 ''/data'' (site []) neverDone (siteTarget 0 True) startState =
     Returned None
       (finishStats (startState\<lparr>files := dataDisk(''/data/site'' \<mapsto> Directory 4096 10),
                                 stats := newStats 10 ''site''\<rparr>))"
    by (simp add: n siteTarget_def)
  with d l a show ?thesis by simp
qed

end
